theory Spec2Isabelle
  imports Complex_Main
begin

section \<open>Data model of the rules engine (chess/engine.js)\<close>

text \<open>
  A piece is the two-character string \<open>color + type\<close> of the source
  (\<open>'wp'\<close>, \<open>'bk'\<close>, ...): its first character is one of the codes of \<open>COLOR\<close>,
  its second one of the codes of \<open>PIECE\<close>. A board cell is \<open>null\<close> or a piece.
\<close>

datatype color = White | Black

datatype pieceType = Pawn | Knight | Bishop | Rook | Queen | King

type_synonym piece = "color \<times> pieceType"

type_synonym cell = "piece option"

type_synonym board = "cell list list"

datatype castleSide = CastleK | CastleQ

datatype winner = Winner color | Draw

datatype reason = Checkmate | Stalemate

record rights =
  kingSide :: bool
  queenSide :: bool

record castlingTable =
  whiteRights :: rights
  blackRights :: rights

text \<open>The objects pushed by \<open>getPseudoLegalMoves\<close>; an absent flag is \<open>False\<close> / \<open>None\<close>.\<close>

record move =
  toRow :: int
  toCol :: int
  capture :: bool
  promotion :: "pieceType option"
  castle :: "castleSide option"
  doublePawn :: bool
  enPassant :: bool

text \<open>\<open>getAllLegalMoves\<close> adds the origin: \<open>{ fromRow: r, fromCol: c, ...move }\<close>.\<close>

record fullMove = move +
  fromRow :: int
  fromCol :: int

record moveRecord =
  mrFrom :: "int \<times> int"
  mrTo :: "int \<times> int"
  mrPiece :: piece
  mrCaptured :: "piece option"
  mrPromotion :: "pieceType option"
  mrCastle :: "castleSide option"
  mrEnPassant :: bool
  mrCheck :: bool
  mrCheckmate :: bool
  mrStalemate :: bool

record game =
  board :: board
  turn :: color
  castling :: castlingTable
  enPassantTarget :: "(int \<times> int) option"
  halfMoveClock :: int
  fullMoveNumber :: int
  moveHistory :: "moveRecord list"
  gameOver :: bool
  winner :: "winner option"
  gameOverReason :: "reason option"

definition INITIAL_BOARD :: board where
  "INITIAL_BOARD =
    [[Some (Black, Rook), Some (Black, Knight), Some (Black, Bishop), Some (Black, Queen),
      Some (Black, King), Some (Black, Bishop), Some (Black, Knight), Some (Black, Rook)],
     [Some (Black, Pawn), Some (Black, Pawn), Some (Black, Pawn), Some (Black, Pawn),
      Some (Black, Pawn), Some (Black, Pawn), Some (Black, Pawn), Some (Black, Pawn)],
     [None, None, None, None, None, None, None, None],
     [None, None, None, None, None, None, None, None],
     [None, None, None, None, None, None, None, None],
     [None, None, None, None, None, None, None, None],
     [Some (White, Pawn), Some (White, Pawn), Some (White, Pawn), Some (White, Pawn),
      Some (White, Pawn), Some (White, Pawn), Some (White, Pawn), Some (White, Pawn)],
     [Some (White, Rook), Some (White, Knight), Some (White, Bishop), Some (White, Queen),
      Some (White, King), Some (White, Bishop), Some (White, Knight), Some (White, Rook)]]"

definition createGame :: game where
  "createGame =
    \<lparr> board = INITIAL_BOARD, turn = White,
      castling = \<lparr> whiteRights = \<lparr> kingSide = True, queenSide = True \<rparr>,
                   blackRights = \<lparr> kingSide = True, queenSide = True \<rparr> \<rparr>,
      enPassantTarget = None, halfMoveClock = 0, fullMoveNumber = 1, moveHistory = [],
      gameOver = False, winner = None, gameOverReason = None \<rparr>"

text \<open>\<open>castling[color]\<close> and the assignments to its two flags.\<close>

definition rightsOf :: "castlingTable \<Rightarrow> color \<Rightarrow> rights" where
  "rightsOf t c = (case c of White \<Rightarrow> whiteRights t | Black \<Rightarrow> blackRights t)"

definition setKingSide :: "castlingTable \<Rightarrow> color \<Rightarrow> bool \<Rightarrow> castlingTable" where
  "setKingSide t c v =
    (case c of White \<Rightarrow> t\<lparr> whiteRights := (whiteRights t)\<lparr> kingSide := v \<rparr> \<rparr>
             | Black \<Rightarrow> t\<lparr> blackRights := (blackRights t)\<lparr> kingSide := v \<rparr> \<rparr>)"

definition setQueenSide :: "castlingTable \<Rightarrow> color \<Rightarrow> bool \<Rightarrow> castlingTable" where
  "setQueenSide t c v =
    (case c of White \<Rightarrow> t\<lparr> whiteRights := (whiteRights t)\<lparr> queenSide := v \<rparr> \<rparr>
             | Black \<Rightarrow> t\<lparr> blackRights := (blackRights t)\<lparr> queenSide := v \<rparr> \<rparr>)"

text \<open>
  A read \<open>board[r][c]\<close>. Inside the grid it is the cell. Outside, the source reads
  \<open>undefined\<close> (a column outside a row, or a row outside the grid under \<open>?.\<close>), which
  every use treats like \<open>null\<close>; the one unguarded read of a caller-supplied row, in
  \<open>makeMove\<close>, throws and is modelled there.
\<close>

definition cellAt :: "board \<Rightarrow> int \<Rightarrow> int \<Rightarrow> cell" where
  "cellAt b r c = (if 0 \<le> r \<and> r \<le> 7 \<and> 0 \<le> c \<and> c \<le> 7 then b ! nat r ! nat c else None)"

text \<open>A write \<open>board[r][c] = v\<close>; the source only writes inside the grid.\<close>

definition setCell :: "board \<Rightarrow> int \<Rightarrow> int \<Rightarrow> cell \<Rightarrow> board" where
  "setCell b r c v = b[nat r := (b ! nat r)[nat c := v]]"

definition getPiece :: "game \<Rightarrow> int \<Rightarrow> int \<Rightarrow> cell" where
  "getPiece g row col =
    (if row < 0 \<or> row > 7 \<or> col < 0 \<or> col > 7 then None else board g ! nat row ! nat col)"

definition getPieceColor :: "cell \<Rightarrow> color option" where
  "getPieceColor p = (case p of None \<Rightarrow> None | Some q \<Rightarrow> Some (fst q))"

definition getPieceType :: "cell \<Rightarrow> pieceType option" where
  "getPieceType p = (case p of None \<Rightarrow> None | Some q \<Rightarrow> Some (snd q))"

definition enemyOf :: "color \<Rightarrow> color" where
  "enemyOf c = (if c = White then Black else White)"

text \<open>The two nested loops \<open>for r = 0..7, for c = 0..7\<close>, in their order.\<close>

definition allSquares :: "(int \<times> int) list" where
  "allSquares = concat (map (\<lambda>r. map (\<lambda>c. (r, c)) [0, 1, 2, 3, 4, 5, 6, 7]) [0, 1, 2, 3, 4, 5, 6, 7])"

section \<open>Attacks and check\<close>

definition knightMoves :: "(int \<times> int) list" where
  "knightMoves = [(-2, -1), (-2, 1), (-1, -2), (-1, 2), (1, -2), (1, 2), (2, -1), (2, 1)]"

definition kingSteps :: "(int \<times> int) list" where
  "kingSteps = [(-1, -1), (-1, 0), (-1, 1), (0, -1), (0, 1), (1, -1), (1, 0), (1, 1)]"

definition bishopDirs :: "(int \<times> int) list" where
  "bishopDirs = [(-1, -1), (-1, 1), (1, -1), (1, 1)]"

definition rookDirs :: "(int \<times> int) list" where
  "rookDirs = [(-1, 0), (1, 0), (0, -1), (0, 1)]"

definition queenDirs :: "(int \<times> int) list" where
  "queenDirs = [(-1, -1), (-1, 1), (1, -1), (1, 1), (-1, 0), (1, 0), (0, -1), (0, 1)]"

text \<open>One ray of a sliding piece: \<open>for (i = 1; i < 8; i++)\<close> with its two breaks.\<close>

fun rayAttacks :: "board \<Rightarrow> int \<Rightarrow> int \<Rightarrow> int \<Rightarrow> int \<Rightarrow> int list \<Rightarrow> (int \<times> int) list" where
  "rayAttacks b row col dr dc [] = []"
| "rayAttacks b row col dr dc (i # rest) =
    (if row + dr * i < 0 \<or> row + dr * i > 7 \<or> col + dc * i < 0 \<or> col + dc * i > 7 then []
     else (row + dr * i, col + dc * i) #
          (if cellAt b (row + dr * i) (col + dc * i) \<noteq> None then []
           else rayAttacks b row col dr dc rest))"

definition slideAttacks :: "board \<Rightarrow> int \<Rightarrow> int \<Rightarrow> (int \<times> int) list \<Rightarrow> (int \<times> int) list" where
  "slideAttacks b row col dirs =
    concat (map (\<lambda>(dr, dc). rayAttacks b row col dr dc [1, 2, 3, 4, 5, 6, 7]) dirs)"

definition stepAttacks :: "int \<Rightarrow> int \<Rightarrow> (int \<times> int) list \<Rightarrow> (int \<times> int) list" where
  "stepAttacks row col steps =
    filter (\<lambda>(nr, nc). nr \<ge> 0 \<and> nr < 8 \<and> nc \<ge> 0 \<and> nc < 8)
           (map (\<lambda>(dr, dc). (row + dr, col + dc)) steps)"

definition getAttacksForPiece :: "game \<Rightarrow> int \<Rightarrow> int \<Rightarrow> piece \<Rightarrow> (int \<times> int) list" where
  "getAttacksForPiece g row col p =
    (case snd p of
       Pawn \<Rightarrow>
         (let direction = (if fst p = White then -1 else 1) in
          (if col > 0 then [(row + direction, col - 1)] else []) @
          (if col < 7 then [(row + direction, col + 1)] else []))
     | Knight \<Rightarrow> stepAttacks row col knightMoves
     | Bishop \<Rightarrow> slideAttacks (board g) row col bishopDirs
     | Rook \<Rightarrow> slideAttacks (board g) row col rookDirs
     | Queen \<Rightarrow> slideAttacks (board g) row col queenDirs
     | King \<Rightarrow> stepAttacks row col kingSteps)"

definition isSquareAttacked :: "game \<Rightarrow> int \<Rightarrow> int \<Rightarrow> color \<Rightarrow> bool" where
  "isSquareAttacked g row col byColor =
    list_ex (\<lambda>(r, c).
        case cellAt (board g) r c of
          None \<Rightarrow> False
        | Some p \<Rightarrow> fst p = byColor \<and> List.member (getAttacksForPiece g r c p) (row, col))
      allSquares"

definition findKing :: "game \<Rightarrow> color \<Rightarrow> (int \<times> int) option" where
  "findKing g c = List.find (\<lambda>(r, k). cellAt (board g) r k = Some (c, King)) allSquares"

definition isInCheck :: "game \<Rightarrow> color \<Rightarrow> bool" where
  "isInCheck g c =
    (case findKing g c of
       None \<Rightarrow> False
     | Some kingPos \<Rightarrow> isSquareAttacked g (fst kingPos) (snd kingPos) (enemyOf c))"

section \<open>Move generation\<close>

text \<open>
  The closure \<open>addMove(toRow, toCol, flags)\<close> of \<open>getPseudoLegalMoves\<close>: it pushes at most
  one move. The flags object holds \<open>doublePawn\<close> or \<open>enPassant\<close> or nothing.
\<close>

definition addMove :: "game \<Rightarrow> color \<Rightarrow> int \<Rightarrow> int \<Rightarrow> bool \<Rightarrow> bool \<Rightarrow> move list" where
  "addMove g c tr tc dbl ep =
    (if tr < 0 \<or> tr > 7 \<or> tc < 0 \<or> tc > 7 then []
     else (case cellAt (board g) tr tc of
             Some t \<Rightarrow>
               (if fst t = c then []
                else [\<lparr> toRow = tr, toCol = tc, capture = True, promotion = None,
                        castle = None, doublePawn = dbl, enPassant = ep \<rparr>])
           | None \<Rightarrow>
               [\<lparr> toRow = tr, toCol = tc, capture = ep, promotion = None,
                   castle = None, doublePawn = dbl, enPassant = ep \<rparr>]))"

definition promotionOptions :: "pieceType list" where
  "promotionOptions = [Queen, Rook, Bishop, Knight]"

definition promotionMoves :: "int \<Rightarrow> int \<Rightarrow> bool \<Rightarrow> move list" where
  "promotionMoves tr tc cap =
    map (\<lambda>promo. \<lparr> toRow = tr, toCol = tc, capture = cap, promotion = Some promo,
                     castle = None, doublePawn = False, enPassant = False \<rparr>) promotionOptions"

text \<open>The pawn case: the forward block, then the block of the loop over \<open>dc\<close>.\<close>

definition pawnForward :: "game \<Rightarrow> int \<Rightarrow> int \<Rightarrow> color \<Rightarrow> move list" where
  "pawnForward g row col c =
    (let direction = (if c = White then -1 else 1);
         startRow = (if c = White then 6 else 1);
         promotionRow = (if c = White then 0 else 7)
     in
       if cellAt (board g) (row + direction) col = None then
         (if row + direction = promotionRow then promotionMoves (row + direction) col False
          else addMove g c (row + direction) col False False @
               (if row = startRow \<and> cellAt (board g) (row + 2 * direction) col = None
                then addMove g c (row + 2 * direction) col True False else []))
       else [])"

definition pawnCapture :: "game \<Rightarrow> int \<Rightarrow> int \<Rightarrow> color \<Rightarrow> int \<Rightarrow> move list" where
  "pawnCapture g row col c dc =
    (let direction = (if c = White then -1 else 1);
         promotionRow = (if c = White then 0 else 7)
     in
       if col + dc < 0 \<or> col + dc > 7 then []
       else
         (case cellAt (board g) (row + direction) (col + dc) of
            None \<Rightarrow> []
          | Some t \<Rightarrow>
              (if fst t = enemyOf c then
                 (if row + direction = promotionRow
                  then promotionMoves (row + direction) (col + dc) True
                  else addMove g c (row + direction) (col + dc) False False)
               else [])) @
         (if enPassantTarget g = Some (row + direction, col + dc)
          then addMove g c (row + direction) (col + dc) False True else []))"

definition pawnMoves :: "game \<Rightarrow> int \<Rightarrow> int \<Rightarrow> color \<Rightarrow> move list" where
  "pawnMoves g row col c =
    pawnForward g row col c @ concat (map (pawnCapture g row col c) [-1, 1])"

text \<open>One ray of a sliding piece in \<open>getPseudoLegalMoves\<close>.\<close>

fun rayMoves :: "game \<Rightarrow> color \<Rightarrow> int \<Rightarrow> int \<Rightarrow> int \<Rightarrow> int \<Rightarrow> int list \<Rightarrow> move list" where
  "rayMoves g c row col dr dc [] = []"
| "rayMoves g c row col dr dc (i # rest) =
    (if row + dr * i < 0 \<or> row + dr * i > 7 \<or> col + dc * i < 0 \<or> col + dc * i > 7 then []
     else (case cellAt (board g) (row + dr * i) (col + dc * i) of
             Some t \<Rightarrow>
               (if fst t = enemyOf c
                then addMove g c (row + dr * i) (col + dc * i) False False else [])
           | None \<Rightarrow>
               addMove g c (row + dr * i) (col + dc * i) False False @
               rayMoves g c row col dr dc rest))"

definition slideMoves :: "game \<Rightarrow> color \<Rightarrow> int \<Rightarrow> int \<Rightarrow> (int \<times> int) list \<Rightarrow> move list" where
  "slideMoves g c row col dirs =
    concat (map (\<lambda>(dr, dc). rayMoves g c row col dr dc [1, 2, 3, 4, 5, 6, 7]) dirs)"

definition stepMoves :: "game \<Rightarrow> color \<Rightarrow> int \<Rightarrow> int \<Rightarrow> (int \<times> int) list \<Rightarrow> move list" where
  "stepMoves g c row col steps =
    concat (map (\<lambda>(dr, dc). addMove g c (row + dr) (col + dc) False False) steps)"

definition castleMove :: "int \<Rightarrow> int \<Rightarrow> castleSide \<Rightarrow> move" where
  "castleMove tr tc side =
    \<lparr> toRow = tr, toCol = tc, capture = False, promotion = None,
      castle = Some side, doublePawn = False, enPassant = False \<rparr>"

definition castlingMoves :: "game \<Rightarrow> int \<Rightarrow> int \<Rightarrow> color \<Rightarrow> move list" where
  "castlingMoves g row col c =
    (let homeRow = (if c = White then 7 else 0) in
     if row = homeRow \<and> col = 4 \<and> \<not> isInCheck g c then
       (if kingSide (rightsOf (castling g) c) \<and>
           cellAt (board g) homeRow 5 = None \<and>
           cellAt (board g) homeRow 6 = None \<and>
           cellAt (board g) homeRow 7 = Some (c, Rook) \<and>
           \<not> isSquareAttacked g homeRow 5 (enemyOf c) \<and>
           \<not> isSquareAttacked g homeRow 6 (enemyOf c)
        then [castleMove homeRow 6 CastleK] else []) @
       (if queenSide (rightsOf (castling g) c) \<and>
           cellAt (board g) homeRow 1 = None \<and>
           cellAt (board g) homeRow 2 = None \<and>
           cellAt (board g) homeRow 3 = None \<and>
           cellAt (board g) homeRow 0 = Some (c, Rook) \<and>
           \<not> isSquareAttacked g homeRow 2 (enemyOf c) \<and>
           \<not> isSquareAttacked g homeRow 3 (enemyOf c)
        then [castleMove homeRow 2 CastleQ] else [])
     else [])"

definition getPseudoLegalMoves :: "game \<Rightarrow> int \<Rightarrow> int \<Rightarrow> piece \<Rightarrow> move list" where
  "getPseudoLegalMoves g row col p =
    (case snd p of
       Pawn \<Rightarrow> pawnMoves g row col (fst p)
     | Knight \<Rightarrow> stepMoves g (fst p) row col knightMoves
     | Bishop \<Rightarrow> slideMoves g (fst p) row col bishopDirs
     | Rook \<Rightarrow> slideMoves g (fst p) row col rookDirs
     | Queen \<Rightarrow> slideMoves g (fst p) row col queenDirs
     | King \<Rightarrow> stepMoves g (fst p) row col kingSteps @ castlingMoves g row col (fst p))"

text \<open>
  \<open>simulateMove\<close> is private to the module; its only caller, \<open>getLegalMoves\<close>, passes an
  origin that holds a piece. Only the board of the copy changes.
\<close>

definition simulateMove ::
  "game \<Rightarrow> int \<Rightarrow> int \<Rightarrow> int \<Rightarrow> int \<Rightarrow> pieceType option \<Rightarrow> game" where
  "simulateMove g fRow fCol tRow tCol promo =
    (case cellAt (board g) fRow fCol of
       None \<Rightarrow> g\<lparr> board := setCell (setCell (board g) tRow tCol None) fRow fCol None \<rparr>
     | Some p \<Rightarrow>
        (let b1 = (if snd p = Pawn \<and> enPassantTarget g = Some (tRow, tCol)
                   then setCell (board g) (if fst p = White then tRow + 1 else tRow - 1) tCol None
                   else board g);
             b2 = setCell b1 tRow tCol
                    (case promo of Some k \<Rightarrow> Some (fst p, k) | None \<Rightarrow> Some p);
             b3 = setCell b2 fRow fCol None;
             b4 = (if snd p = King \<and> \<bar>tCol - fCol\<bar> = 2 then
                     (if tCol = 6 then setCell (setCell b3 tRow 5 (cellAt b3 tRow 7)) tRow 7 None
                      else if tCol = 2 then setCell (setCell b3 tRow 3 (cellAt b3 tRow 0)) tRow 0 None
                      else b3)
                   else b3)
         in g\<lparr> board := b4 \<rparr>))"

text \<open>
  \<open>getLegalMoves(game, row, col)\<close>, for a row of the grid (its callers in the engine pass
  rows 0..7; the read \<open>game.board[row]\<close> is not guarded).
\<close>

definition getLegalMoves :: "game \<Rightarrow> int \<Rightarrow> int \<Rightarrow> move list" where
  "getLegalMoves g row col =
    (case cellAt (board g) row col of
       None \<Rightarrow> []
     | Some p \<Rightarrow>
        (if fst p \<noteq> turn g then []
         else filter
                (\<lambda>m. \<not> isInCheck (simulateMove g row col (toRow m) (toCol m) (promotion m)) (fst p))
                (getPseudoLegalMoves g row col p)))"

definition withOrigin :: "int \<Rightarrow> int \<Rightarrow> move \<Rightarrow> fullMove" where
  "withOrigin r c m =
    \<lparr> toRow = toRow m, toCol = toCol m, capture = capture m, promotion = promotion m,
      castle = castle m, doublePawn = doublePawn m, enPassant = enPassant m,
      fromRow = r, fromCol = c \<rparr>"

definition getAllLegalMoves :: "game \<Rightarrow> fullMove list" where
  "getAllLegalMoves g =
    concat (map (\<lambda>(r, c).
        case cellAt (board g) r c of
          None \<Rightarrow> []
        | Some p \<Rightarrow> (if fst p = turn g then map (withOrigin r c) (getLegalMoves g r c) else []))
      allSquares)"

section \<open>Applying a move\<close>

datatype error = TypeError

text \<open>The object returned by \<open>makeMove\<close>: \<open>{ game, valid, move }\<close>.\<close>

record moveResult =
  resGame :: game
  valid :: bool
  resMove :: "moveRecord option"

text \<open>
  \<open>Math.random()\<close> is a source of draws from \<open>[0, 1)\<close>: \<open>rnd 0\<close> is the value of the next
  call, and a call leaves the later draws.
\<close>

type_synonym rng = "nat \<Rightarrow> real"

definition nextDraws :: "rng \<Rightarrow> rng" where
  "nextDraws rnd = (\<lambda>n. rnd (Suc n))"

text \<open>\<open>options[Math.floor(Math.random() * options.length)]\<close> for a draw \<open>x\<close>.\<close>

definition randomPromotion :: "real \<Rightarrow> pieceType" where
  "randomPromotion x = promotionOptions ! nat \<lfloor>x * 4\<rfloor>"

text \<open>
  The last step of \<open>makeMove\<close> (the flags of the record and the end of the game), given
  the two values \<open>inCheck\<close> and \<open>hasLegalMoves\<close>. The record was pushed on the history
  before its flags were set; it is one object, so the history holds the flags too.
\<close>

definition concludeMove :: "game \<Rightarrow> moveRecord \<Rightarrow> color \<Rightarrow> bool \<Rightarrow> bool \<Rightarrow> moveResult" where
  "concludeMove newGame r c inCheck hasLegalMoves =
    (let r' = r\<lparr> mrCheck := inCheck \<and> hasLegalMoves,
                 mrCheckmate := inCheck \<and> \<not> hasLegalMoves,
                 mrStalemate := \<not> inCheck \<and> \<not> hasLegalMoves \<rparr>;
         g1 = newGame\<lparr> moveHistory := moveHistory newGame @ [r'] \<rparr>;
         g2 = (if mrCheckmate r' then
                 g1\<lparr> gameOver := True, winner := Some (Winner c), gameOverReason := Some Checkmate \<rparr>
               else if mrStalemate r' then
                 g1\<lparr> gameOver := True, winner := Some Draw, gameOverReason := Some Stalemate \<rparr>
               else g1)
     in \<lparr> resGame = g2, valid = True, resMove = Some r' \<rparr>)"

text \<open>The board after the move: en passant removal, the move itself, the rook of a castle.\<close>

definition movedBoard ::
  "game \<Rightarrow> int \<Rightarrow> int \<Rightarrow> int \<Rightarrow> int \<Rightarrow> piece \<Rightarrow> move \<Rightarrow> pieceType option \<Rightarrow> board" where
  "movedBoard g fRow fCol tRow tCol p mv promo =
    (let b1 = (if snd p = Pawn \<and> enPassantTarget g = Some (tRow, tCol)
               then setCell (board g) (if fst p = White then tRow + 1 else tRow - 1) tCol None
               else board g);
         b2 = setCell b1 tRow tCol (case promo of Some k \<Rightarrow> Some (fst p, k) | None \<Rightarrow> Some p);
         b3 = setCell b2 fRow fCol None
     in (case castle mv of
           None \<Rightarrow> b3
         | Some CastleK \<Rightarrow> setCell (setCell b3 tRow 5 (cellAt b3 tRow 7)) tRow 7 None
         | Some CastleQ \<Rightarrow> setCell (setCell b3 tRow 3 (cellAt b3 tRow 0)) tRow 0 None))"

text \<open>The castling rights after the move.\<close>

definition movedCastling ::
  "castlingTable \<Rightarrow> int \<Rightarrow> int \<Rightarrow> int \<Rightarrow> int \<Rightarrow> piece \<Rightarrow> castlingTable" where
  "movedCastling t fRow fCol tRow tCol p =
    (let c = fst p;
         t1 = (if snd p = King then setQueenSide (setKingSide t c False) c False else t);
         homeRow = (if c = White then 7 else 0);
         t2 = (if snd p = Rook \<and> fRow = homeRow \<and> fCol = 0 then setQueenSide t1 c False else t1);
         t3 = (if snd p = Rook \<and> fRow = homeRow \<and> fCol = 7 then setKingSide t2 c False else t2);
         enemyColor = enemyOf c;
         enemyHomeRow = (if enemyColor = White then 7 else 0);
         t4 = (if tRow = enemyHomeRow \<and> tCol = 0 then setQueenSide t3 enemyColor False else t3)
     in (if tRow = enemyHomeRow \<and> tCol = 7 then setKingSide t4 enemyColor False else t4))"

text \<open>
  \<open>makeMove\<close> from ``Create new game state'' on, for the piece \<open>p\<close> of the origin, the
  matched legal move \<open>mv\<close> and the promotion piece already determined: the new state
  before the flags, the record before the flags, and the whole step.
\<close>

definition movedGame ::
  "game \<Rightarrow> int \<Rightarrow> int \<Rightarrow> int \<Rightarrow> int \<Rightarrow> piece \<Rightarrow> move \<Rightarrow> pieceType option \<Rightarrow> game" where
  "movedGame g fRow fCol tRow tCol p mv promo =
    g\<lparr> board := movedBoard g fRow fCol tRow tCol p mv promo,
       castling := movedCastling (castling g) fRow fCol tRow tCol p,
       enPassantTarget :=
         (if doublePawn mv then Some (if fst p = White then fRow - 1 else fRow + 1, fCol)
          else None),
       turn := enemyOf (fst p),
       fullMoveNumber := (if fst p = Black then fullMoveNumber g + 1 else fullMoveNumber g) \<rparr>"

definition newRecord ::
  "game \<Rightarrow> int \<Rightarrow> int \<Rightarrow> int \<Rightarrow> int \<Rightarrow> piece \<Rightarrow> move \<Rightarrow> pieceType option \<Rightarrow> moveRecord" where
  "newRecord g fRow fCol tRow tCol p mv promo =
    (let capturedPiece = cellAt (board g) tRow tCol;
         enPassantCapture = (snd p = Pawn \<and> enPassantTarget g = Some (tRow, tCol))
     in \<lparr> mrFrom = (fRow, fCol), mrTo = (tRow, tCol), mrPiece = p,
          mrCaptured = (case capturedPiece of
                          Some q \<Rightarrow> Some q
                        | None \<Rightarrow> (if enPassantCapture then Some (enemyOf (fst p), Pawn) else None)),
          mrPromotion = promo, mrCastle = castle mv, mrEnPassant = enPassantCapture,
          mrCheck = False, mrCheckmate = False, mrStalemate = False \<rparr>)"

definition executeMove ::
  "game \<Rightarrow> int \<Rightarrow> int \<Rightarrow> int \<Rightarrow> int \<Rightarrow> piece \<Rightarrow> move \<Rightarrow> pieceType option \<Rightarrow> moveResult" where
  "executeMove g fRow fCol tRow tCol p mv promo =
    concludeMove (movedGame g fRow fCol tRow tCol p mv promo)
      (newRecord g fRow fCol tRow tCol p mv promo) (fst p)
      (isInCheck (movedGame g fRow fCol tRow tCol p mv promo) (enemyOf (fst p)))
      (getAllLegalMoves (movedGame g fRow fCol tRow tCol p mv promo) \<noteq> [])"

text \<open>
  \<open>makeMove(game, fromRow, fromCol, toRow, toCol, promotionOverride)\<close>. Its first
  statement reads \<open>game.board[fromRow][fromCol]\<close>: for a row outside the grid
  \<open>game.board[fromRow]\<close> is \<open>undefined\<close> and the read throws a TypeError. The second
  component is the source of random draws left after the call.
\<close>

definition makeMove ::
  "game \<Rightarrow> int \<Rightarrow> int \<Rightarrow> int \<Rightarrow> int \<Rightarrow> pieceType option \<Rightarrow> rng \<Rightarrow> (error + moveResult) \<times> rng" where
  "makeMove g fRow fCol tRow tCol promotionOverride rnd =
    (if fRow < 0 \<or> fRow > 7 then (Inl TypeError, rnd)
     else
      (case cellAt (board g) fRow fCol of
         None \<Rightarrow> (Inr \<lparr> resGame = g, valid = False, resMove = None \<rparr>, rnd)
       | Some p \<Rightarrow>
          (case List.find (\<lambda>m. toRow m = tRow \<and> toCol m = tCol) (getLegalMoves g fRow fCol) of
             None \<Rightarrow> (Inr \<lparr> resGame = g, valid = False, resMove = None \<rparr>, rnd)
           | Some mv \<Rightarrow>
              (case promotion mv of
                 None \<Rightarrow> (Inr (executeMove g fRow fCol tRow tCol p mv None), rnd)
               | Some k \<Rightarrow>
                  (case promotionOverride of
                     Some promo \<Rightarrow> (Inr (executeMove g fRow fCol tRow tCol p mv (Some promo)), rnd)
                   | None \<Rightarrow>
                       (Inr (executeMove g fRow fCol tRow tCol p mv (Some (randomPromotion (rnd 0)))),
                        nextDraws rnd))))))"

section \<open>What the engine reads of a state\<close>

text \<open>
  What move generation reads of a state: the board, the side to move, the castling
  rights and the en passant target.
\<close>

definition sameCore :: "game \<Rightarrow> game \<Rightarrow> bool" where
  "sameCore g g' \<longleftrightarrow> board g = board g' \<and> turn g = turn g' \<and> castling g = castling g' \<and>
     enPassantTarget g = enPassantTarget g'"

lemma getAttacksForPiece_board:
  assumes "board g = board g'"
  shows "getAttacksForPiece g r c p = getAttacksForPiece g' r c p"
  unfolding getAttacksForPiece_def assms ..

lemma isSquareAttacked_board:
  assumes "board g = board g'"
  shows "isSquareAttacked g r c k = isSquareAttacked g' r c k"
  unfolding isSquareAttacked_def getAttacksForPiece_board [OF assms] assms ..

lemma findKing_board:
  assumes "board g = board g'" shows "findKing g c = findKing g' c"
  unfolding findKing_def assms ..

lemma isInCheck_board:
  assumes "board g = board g'" shows "isInCheck g c = isInCheck g' c"
  unfolding isInCheck_def findKing_board [OF assms] isSquareAttacked_board [OF assms] ..

lemma addMove_board:
  assumes "board g = board g'" shows "addMove g c r k d e = addMove g' c r k d e"
  unfolding addMove_def assms ..

lemma rayMoves_board:
  assumes "board g = board g'"
  shows "rayMoves g c row col dr dc is = rayMoves g' c row col dr dc is"
proof (induction "is")
  case Nil
  show ?case by simp
next
  case (Cons i rest)
  show ?case unfolding rayMoves.simps Cons.IH assms addMove_board [OF assms] ..
qed

lemma pawnMoves_core:
  assumes "sameCore g g'" shows "pawnMoves g r c k = pawnMoves g' r c k"
proof -
  have b: "board g = board g'" and e: "enPassantTarget g = enPassantTarget g'"
    using assms by (simp_all add: sameCore_def)
  show ?thesis
    unfolding pawnMoves_def pawnForward_def pawnCapture_def b e addMove_board [OF b] ..
qed

lemma castlingMoves_core:
  assumes "sameCore g g'" shows "castlingMoves g r c k = castlingMoves g' r c k"
proof -
  have b: "board g = board g'" and e: "castling g = castling g'"
    using assms by (simp_all add: sameCore_def)
  show ?thesis
    unfolding castlingMoves_def b e isInCheck_board [OF b] isSquareAttacked_board [OF b] ..
qed

lemma getPseudoLegalMoves_core:
  assumes "sameCore g g'"
  shows "getPseudoLegalMoves g r c p = getPseudoLegalMoves g' r c p"
proof -
  have b: "board g = board g'" using assms by (simp add: sameCore_def)
  show ?thesis
    unfolding getPseudoLegalMoves_def pawnMoves_core [OF assms] castlingMoves_core [OF assms]
      slideMoves_def stepMoves_def rayMoves_board [OF b] addMove_board [OF b] ..
qed

lemma simulateMove_core:
  assumes "sameCore g g'"
  shows "board (simulateMove g a b c d p) = board (simulateMove g' a b c d p)"
proof -
  have b: "board g = board g'" and e: "enPassantTarget g = enPassantTarget g'"
    using assms by (simp_all add: sameCore_def)
  show ?thesis
    by (cases "cellAt (board g') a b") (simp_all add: simulateMove_def b e Let_def)
qed

lemma getLegalMoves_core:
  assumes "sameCore g g'" shows "getLegalMoves g r c = getLegalMoves g' r c"
proof -
  have b: "board g = board g'" and t: "turn g = turn g'"
    using assms by (simp_all add: sameCore_def)
  show ?thesis
    unfolding getLegalMoves_def b t getPseudoLegalMoves_core [OF assms]
      isInCheck_board [OF simulateMove_core [OF assms]] ..
qed

lemma getAllLegalMoves_core:
  assumes "sameCore g g'" shows "getAllLegalMoves g = getAllLegalMoves g'"
proof -
  have b: "board g = board g'" and t: "turn g = turn g'"
    using assms by (simp_all add: sameCore_def)
  show ?thesis unfolding getAllLegalMoves_def b t getLegalMoves_core [OF assms] ..
qed

section \<open>The shape of a call of makeMove\<close>

lemma makeMove_outside_grid:
  "fRow < 0 \<or> fRow > 7 \<Longrightarrow> makeMove g fRow fCol tRow tCol po rnd = (Inl TypeError, rnd)"
  by (simp add: makeMove_def)

lemma makeMove_rejects:
  assumes "0 \<le> fRow" "fRow \<le> 7"
    and "List.find (\<lambda>m. toRow m = tRow \<and> toCol m = tCol) (getLegalMoves g fRow fCol) = None"
  shows "makeMove g fRow fCol tRow tCol po rnd =
           (Inr \<lparr> resGame = g, valid = False, resMove = None \<rparr>, rnd)"
  using assms by (simp add: makeMove_def split: option.splits)

lemma getLegalMoves_empty_square:
  "cellAt (board g) row col = None \<Longrightarrow> getLegalMoves g row col = []"
  by (simp add: getLegalMoves_def)

lemma concludeMove_valid: "valid (concludeMove ng r c a b)"
  by (simp add: concludeMove_def Let_def)

lemma executeMove_valid: "valid (executeMove g fRow fCol tRow tCol p mv promo)"
  by (simp add: executeMove_def concludeMove_valid)

text \<open>The promotion piece \<open>makeMove\<close> determines for a matched move.\<close>

definition chosenPromotion :: "move \<Rightarrow> pieceType option \<Rightarrow> rng \<Rightarrow> pieceType option" where
  "chosenPromotion mv po rnd =
    (case promotion mv of
       None \<Rightarrow> None
     | Some k \<Rightarrow> (case po of Some promo \<Rightarrow> Some promo | None \<Rightarrow> Some (randomPromotion (rnd 0))))"

lemma makeMove_applies:
  assumes "0 \<le> fRow" "fRow \<le> 7"
    and "cellAt (board g) fRow fCol = Some p"
    and "List.find (\<lambda>m. toRow m = tRow \<and> toCol m = tCol) (getLegalMoves g fRow fCol) = Some mv"
  shows "fst (makeMove g fRow fCol tRow tCol po rnd) =
           Inr (executeMove g fRow fCol tRow tCol p mv (chosenPromotion mv po rnd))"
  using assms by (simp add: makeMove_def chosenPromotion_def split: option.splits)

lemma makeMove_valid_cases:
  assumes "fst (makeMove g fRow fCol tRow tCol po rnd) = Inr res" and "valid res"
  obtains p mv where "0 \<le> fRow" "fRow \<le> 7" "cellAt (board g) fRow fCol = Some p"
    and "List.find (\<lambda>m. toRow m = tRow \<and> toCol m = tCol) (getLegalMoves g fRow fCol) = Some mv"
    and "res = executeMove g fRow fCol tRow tCol p mv (chosenPromotion mv po rnd)"
proof -
  have r: "0 \<le> fRow \<and> fRow \<le> 7"
    using assms(1) by (cases "fRow < 0 \<or> fRow > 7") (auto simp: makeMove_outside_grid)
  show thesis
  proof (cases "cellAt (board g) fRow fCol")
    case None
    then have "getLegalMoves g fRow fCol = []" by (rule getLegalMoves_empty_square)
    then have "res = \<lparr> resGame = g, valid = False, resMove = None \<rparr>"
      using r assms(1) by (simp add: makeMove_rejects)
    with assms(2) show thesis by simp
  next
    case (Some p)
    show thesis
    proof (cases "List.find (\<lambda>m. toRow m = tRow \<and> toCol m = tCol) (getLegalMoves g fRow fCol)")
      case None
      then have "res = \<lparr> resGame = g, valid = False, resMove = None \<rparr>"
        using r assms(1) by (simp add: makeMove_rejects)
      with assms(2) show thesis by simp
    next
      case (Some mv)
      from makeMove_applies [of fRow g fCol p tRow tCol mv po rnd] r \<open>cellAt (board g) fRow fCol = Some p\<close> Some assms(1)
      have "res = executeMove g fRow fCol tRow tCol p mv (chosenPromotion mv po rnd)" by simp
      with r \<open>cellAt (board g) fRow fCol = Some p\<close> Some that show thesis by blast
    qed
  qed
qed

lemma getLegalMoves_mover:
  assumes "m \<in> set (getLegalMoves g row col)" and "cellAt (board g) row col = Some p"
  shows "fst p = turn g"
    and "m \<in> set (getPseudoLegalMoves g row col p)"
    and "\<not> isInCheck (simulateMove g row col (toRow m) (toCol m) (promotion m)) (fst p)"
  using assms by (auto simp: getLegalMoves_def split: if_splits)

lemma find_Some_set: "List.find P xs = Some x \<Longrightarrow> x \<in> set xs \<and> P x"
  by (induction xs) (auto split: if_splits)

section \<open>The fool's mate, move by move\<close>

text \<open>
  1. f3 e5 2. g4 Qh4, played through \<open>makeMove\<close> from the initial position. No move of
  it promotes, so no random draw is taken.
\<close>

definition quietRecord :: "int \<times> int \<Rightarrow> int \<times> int \<Rightarrow> piece \<Rightarrow> moveRecord" where
  "quietRecord f t p =
    \<lparr> mrFrom = f, mrTo = t, mrPiece = p, mrCaptured = None, mrPromotion = None,
      mrCastle = None, mrEnPassant = False, mrCheck = False, mrCheckmate = False,
      mrStalemate = False \<rparr>"

definition movePiece :: "board \<Rightarrow> int \<times> int \<Rightarrow> int \<times> int \<Rightarrow> board" where
  "movePiece b f t = setCell (setCell b (fst t) (snd t) (cellAt b (fst f) (snd f))) (fst f) (snd f) None"

definition noDraws :: rng where
  "noDraws = (\<lambda>n. 0)"

definition fm1 :: game where
  "fm1 = createGame\<lparr> board := movePiece INITIAL_BOARD (6, 5) (5, 5), turn := Black,
           moveHistory := [quietRecord (6, 5) (5, 5) (White, Pawn)] \<rparr>"

definition fm2 :: game where
  "fm2 = fm1\<lparr> board := movePiece (board fm1) (1, 4) (3, 4), turn := White,
           enPassantTarget := Some (2, 4), fullMoveNumber := 2,
           moveHistory := moveHistory fm1 @ [quietRecord (1, 4) (3, 4) (Black, Pawn)] \<rparr>"

definition fm3 :: game where
  "fm3 = fm2\<lparr> board := movePiece (board fm2) (6, 6) (4, 6), turn := Black,
           enPassantTarget := Some (5, 6),
           moveHistory := moveHistory fm2 @ [quietRecord (6, 6) (4, 6) (White, Pawn)] \<rparr>"

definition fm4 :: game where
  "fm4 = fm3\<lparr> board := movePiece (board fm3) (0, 3) (4, 7), turn := White,
           enPassantTarget := None, fullMoveNumber := 3,
           moveHistory := moveHistory fm3 @
             [(quietRecord (0, 3) (4, 7) (Black, Queen))\<lparr> mrCheckmate := True \<rparr>],
           gameOver := True, winner := Some (Winner Black),
           gameOverReason := Some Checkmate \<rparr>"

lemma fm_ply1:
  "fst (makeMove createGame 6 5 5 5 None noDraws) =
     (Inr \<lparr> resGame = fm1, valid = True,
            resMove = Some (quietRecord (6, 5) (5, 5) (White, Pawn)) \<rparr>)"
  by code_simp

lemma fm_ply2:
  "fst (makeMove fm1 1 4 3 4 None noDraws) =
     (Inr \<lparr> resGame = fm2, valid = True,
            resMove = Some (quietRecord (1, 4) (3, 4) (Black, Pawn)) \<rparr>)"
  by code_simp

lemma fm_ply3:
  "fst (makeMove fm2 6 6 4 6 None noDraws) =
     (Inr \<lparr> resGame = fm3, valid = True,
            resMove = Some (quietRecord (6, 6) (4, 6) (White, Pawn)) \<rparr>)"
  by code_simp

lemma fm_ply4:
  "fst (makeMove fm3 0 3 4 7 None noDraws) =
     (Inr \<lparr> resGame = fm4, valid = True,
            resMove = Some ((quietRecord (0, 3) (4, 7) (Black, Queen))\<lparr> mrCheckmate := True \<rparr>) \<rparr>)"
  by code_simp

lemma fm4_no_moves: "getAllLegalMoves fm4 = []"
  by code_simp

lemma fm4_in_check: "isInCheck fm4 White"
  by code_simp

section \<open>The legality filter\<close>



section \<open>Rejection of a request\<close>

text \<open>
  For an origin row inside the grid, \<open>makeMove\<close> applies the request exactly when the
  destination matches a legal move of the origin, and otherwise returns the state it was
  given, with \<open>valid = false\<close>, and takes no random draw.
\<close>

lemma makeMove_valid_iff:
  assumes "0 \<le> fRow" "fRow \<le> 7"
  shows "\<exists>res. fst (makeMove g fRow fCol tRow tCol po rnd) = Inr res \<and>
           (valid res \<longleftrightarrow> (\<exists>m \<in> set (getLegalMoves g fRow fCol). toRow m = tRow \<and> toCol m = tCol)) \<and>
           (\<not> valid res \<longrightarrow> resGame res = g \<and> resMove res = None \<and>
              snd (makeMove g fRow fCol tRow tCol po rnd) = rnd)"
proof (cases "List.find (\<lambda>m. toRow m = tRow \<and> toCol m = tCol) (getLegalMoves g fRow fCol)")
  case None
  then have "\<not> (\<exists>m \<in> set (getLegalMoves g fRow fCol). toRow m = tRow \<and> toCol m = tCol)"
    by (simp add: find_None_iff)
  with makeMove_rejects [OF assms None] show ?thesis by simp
next
  case (Some mv)
  then have in_set: "mv \<in> set (getLegalMoves g fRow fCol) \<and> toRow mv = tRow \<and> toCol mv = tCol"
    by (auto dest: find_Some_set)
  then obtain p where p: "cellAt (board g) fRow fCol = Some p"
    by (cases "cellAt (board g) fRow fCol") (auto simp: getLegalMoves_empty_square)
  from makeMove_applies [OF assms p Some] in_set show ?thesis
    by (auto simp: executeMove_valid)
qed

text \<open>
  C2. The claim fails for an origin row outside the grid: \<open>makeMove(createGame(), 8, 0,
  7, 0)\<close> does not return a rejection, it throws.
\<close>

theorem makeMove_row_outside_grid_throws:
  "fst (makeMove createGame 8 0 7 0 None rnd) = Inl TypeError"
  by (simp add: makeMove_def)

section \<open>Check, checkmate and stalemate after a move\<close>

lemma concludeMove_fields:
  "resMove (concludeMove ng r c a b) =
     Some (r\<lparr> mrCheck := a \<and> b, mrCheckmate := a \<and> \<not> b, mrStalemate := \<not> a \<and> \<not> b \<rparr>)"
  "sameCore (resGame (concludeMove ng r c a b)) ng"
  "a \<and> \<not> b \<Longrightarrow> gameOver (resGame (concludeMove ng r c a b)) \<and>
     winner (resGame (concludeMove ng r c a b)) = Some (Winner c) \<and>
     gameOverReason (resGame (concludeMove ng r c a b)) = Some Checkmate"
  "\<not> a \<and> \<not> b \<Longrightarrow> gameOver (resGame (concludeMove ng r c a b)) \<and>
     winner (resGame (concludeMove ng r c a b)) = Some Draw \<and>
     gameOverReason (resGame (concludeMove ng r c a b)) = Some Stalemate"
  "b \<Longrightarrow> gameOver (resGame (concludeMove ng r c a b)) = gameOver ng \<and>
     winner (resGame (concludeMove ng r c a b)) = winner ng \<and>
     gameOverReason (resGame (concludeMove ng r c a b)) = gameOverReason ng"
  by (auto simp: concludeMove_def Let_def sameCore_def)

lemma movedGame_fields:
  "turn (movedGame g fRow fCol tRow tCol p mv promo) = enemyOf (fst p)"
  "gameOver (movedGame g fRow fCol tRow tCol p mv promo) = gameOver g"
  "winner (movedGame g fRow fCol tRow tCol p mv promo) = winner g"
  "gameOverReason (movedGame g fRow fCol tRow tCol p mv promo) = gameOverReason g"
  "board (movedGame g fRow fCol tRow tCol p mv promo) = movedBoard g fRow fCol tRow tCol p mv promo"
  "moveHistory (movedGame g fRow fCol tRow tCol p mv promo) = moveHistory g"
  by (simp_all add: movedGame_def)

text \<open>
  C3. After an applied move the turn has passed to the opponent, and on the returned
  position, with the opponent to move: the record's \<open>checkmate\<close> flag holds exactly when
  the opponent is in check and has no legal move, and then the game is over, won by the
  mover, by checkmate; its \<open>stalemate\<close> flag exactly when the opponent is not in check and
  has no legal move, and then the game is over, drawn, by stalemate; its \<open>check\<close> flag
  exactly when the opponent is in check and has a legal move; and when the opponent has
  a legal move the three game-over fields are those of the state before.
\<close>

theorem makeMove_outcome_policy:
  assumes "fst (makeMove g fRow fCol tRow tCol po rnd) = Inr res" and "valid res"
  shows "\<exists>r. resMove res = Some r \<and>
     turn (resGame res) = enemyOf (turn g) \<and>
     (mrCheckmate r \<longleftrightarrow>
        isInCheck (resGame res) (turn (resGame res)) \<and> getAllLegalMoves (resGame res) = []) \<and>
     (mrStalemate r \<longleftrightarrow>
        \<not> isInCheck (resGame res) (turn (resGame res)) \<and> getAllLegalMoves (resGame res) = []) \<and>
     (mrCheck r \<longleftrightarrow>
        isInCheck (resGame res) (turn (resGame res)) \<and> getAllLegalMoves (resGame res) \<noteq> []) \<and>
     (mrCheckmate r \<longrightarrow>
        gameOver (resGame res) \<and> winner (resGame res) = Some (Winner (turn g)) \<and>
        gameOverReason (resGame res) = Some Checkmate) \<and>
     (mrStalemate r \<longrightarrow>
        gameOver (resGame res) \<and> winner (resGame res) = Some Draw \<and>
        gameOverReason (resGame res) = Some Stalemate) \<and>
     (getAllLegalMoves (resGame res) \<noteq> [] \<longrightarrow>
        gameOver (resGame res) = gameOver g \<and> winner (resGame res) = winner g \<and>
        gameOverReason (resGame res) = gameOverReason g)"
proof -
  from assms obtain p mv where p: "cellAt (board g) fRow fCol = Some p"
    and mv: "List.find (\<lambda>m. toRow m = tRow \<and> toCol m = tCol) (getLegalMoves g fRow fCol) = Some mv"
    and res: "res = executeMove g fRow fCol tRow tCol p mv (chosenPromotion mv po rnd)"
    by (rule makeMove_valid_cases)
  from mv have "mv \<in> set (getLegalMoves g fRow fCol)" by (auto dest: find_Some_set)
  then have mover: "fst p = turn g" using p by (rule getLegalMoves_mover)
  define ng where "ng = movedGame g fRow fCol tRow tCol p mv (chosenPromotion mv po rnd)"
  define nr where "nr = newRecord g fRow fCol tRow tCol p mv (chosenPromotion mv po rnd)"
  define a where "a = isInCheck ng (enemyOf (fst p))"
  define b where "b = (getAllLegalMoves ng \<noteq> [])"
  have res': "res = concludeMove ng nr (fst p) a b"
    by (simp add: res executeMove_def ng_def nr_def a_def b_def)
  have core: "sameCore (resGame res) ng" by (simp add: res' concludeMove_fields)
  have t: "turn (resGame res) = enemyOf (fst p)"
    using core by (simp add: sameCore_def ng_def movedGame_fields)
  have a': "isInCheck (resGame res) (turn (resGame res)) = a"
    using core by (simp add: t a_def sameCore_def isInCheck_board [of "resGame res" ng])
  have b': "(getAllLegalMoves (resGame res) \<noteq> []) = b"
    by (simp add: b_def getAllLegalMoves_core [OF core])
  have old: "gameOver ng = gameOver g" "winner ng = winner g" "gameOverReason ng = gameOverReason g"
    by (simp_all add: ng_def movedGame_fields)
  let ?r = "nr\<lparr> mrCheck := a \<and> b, mrCheckmate := a \<and> \<not> b, mrStalemate := \<not> a \<and> \<not> b \<rparr>"
  have r: "resMove res = Some ?r" by (simp add: res' concludeMove_fields)
  have mate: "a \<and> \<not> b \<Longrightarrow> gameOver (resGame res) \<and> winner (resGame res) = Some (Winner (turn g)) \<and>
      gameOverReason (resGame res) = Some Checkmate"
    using concludeMove_fields(3) [of a b ng nr "fst p"] by (simp add: res' mover)
  have stale: "\<not> a \<and> \<not> b \<Longrightarrow> gameOver (resGame res) \<and> winner (resGame res) = Some Draw \<and>
      gameOverReason (resGame res) = Some Stalemate"
    using concludeMove_fields(4) [of a b ng nr "fst p"] by (simp add: res')
  have goes_on: "b \<Longrightarrow> gameOver (resGame res) = gameOver g \<and> winner (resGame res) = winner g \<and>
      gameOverReason (resGame res) = gameOverReason g"
    using concludeMove_fields(5) [of b ng nr "fst p" a] by (simp add: res' old)
  show ?thesis
    using r t mover a' b' mate stale goes_on by (intro exI [of _ ?r]) auto
qed

theorem makeMove_outcome_policy_witness:
  "fst (makeMove createGame 6 5 5 5 None noDraws) =
     Inr \<lparr> resGame = fm1, valid = True, resMove = Some (quietRecord (6, 5) (5, 5) (White, Pawn)) \<rparr> \<and>
   fst (makeMove fm1 1 4 3 4 None noDraws) =
     Inr \<lparr> resGame = fm2, valid = True, resMove = Some (quietRecord (1, 4) (3, 4) (Black, Pawn)) \<rparr> \<and>
   fst (makeMove fm2 6 6 4 6 None noDraws) =
     Inr \<lparr> resGame = fm3, valid = True, resMove = Some (quietRecord (6, 6) (4, 6) (White, Pawn)) \<rparr> \<and>
   fst (makeMove fm3 0 3 4 7 None noDraws) =
     Inr \<lparr> resGame = fm4, valid = True,
           resMove = Some ((quietRecord (0, 3) (4, 7) (Black, Queen))\<lparr> mrCheckmate := True \<rparr>) \<rparr> \<and>
   gameOver fm4 \<and> winner fm4 = Some (Winner Black) \<and> gameOverReason fm4 = Some Checkmate \<and>
   getAllLegalMoves fm4 = [] \<and> isInCheck fm4 White"
proof -
  let ?res = "\<lparr> resGame = fm4, valid = True,
           resMove = Some ((quietRecord (0, 3) (4, 7) (Black, Queen))\<lparr> mrCheckmate := True \<rparr>) \<rparr>"
  have v: "valid ?res" by simp
  have t3: "turn fm3 = Black" by (simp add: fm3_def)
  from makeMove_outcome_policy [OF fm_ply4 v] obtain r where
    r: "resMove ?res = Some r" and t: "turn (resGame ?res) = enemyOf (turn fm3)"
    and mate: "mrCheckmate r \<longleftrightarrow>
        isInCheck (resGame ?res) (turn (resGame ?res)) \<and> getAllLegalMoves (resGame ?res) = []"
    and over: "mrCheckmate r \<longrightarrow>
        gameOver (resGame ?res) \<and> winner (resGame ?res) = Some (Winner (turn fm3)) \<and>
        gameOverReason (resGame ?res) = Some Checkmate"
    by blast
  from t have "turn fm4 = White" by (simp add: t3 enemyOf_def)
  with mate fm4_in_check fm4_no_moves have "mrCheckmate r" by simp
  with over have "gameOver fm4 \<and> winner fm4 = Some (Winner Black) \<and>
      gameOverReason fm4 = Some Checkmate" by (simp add: t3)
  with fm_ply1 fm_ply2 fm_ply3 fm_ply4 fm4_no_moves fm4_in_check show ?thesis by simp
qed

section \<open>Move selection (chess/ai.js)\<close>

definition PIECE_VALUES :: "pieceType \<Rightarrow> int" where
  "PIECE_VALUES t =
    (case t of Pawn \<Rightarrow> 100 | Knight \<Rightarrow> 320 | Bishop \<Rightarrow> 330 | Rook \<Rightarrow> 500
             | Queen \<Rightarrow> 900 | King \<Rightarrow> 20000)"

definition PST :: "pieceType \<Rightarrow> int list list" where
  "PST t =
    (case t of
       Pawn \<Rightarrow>
        [[0, 0, 0, 0, 0, 0, 0, 0],
         [50, 50, 50, 50, 50, 50, 50, 50],
         [10, 10, 20, 30, 30, 20, 10, 10],
         [5, 5, 10, 25, 25, 10, 5, 5],
         [0, 0, 0, 20, 20, 0, 0, 0],
         [5, -5, -10, 0, 0, -10, -5, 5],
         [5, 10, 10, -20, -20, 10, 10, 5],
         [0, 0, 0, 0, 0, 0, 0, 0]]
     | Knight \<Rightarrow>
        [[-50, -40, -30, -30, -30, -30, -40, -50],
         [-40, -20, 0, 0, 0, 0, -20, -40],
         [-30, 0, 10, 15, 15, 10, 0, -30],
         [-30, 5, 15, 20, 20, 15, 5, -30],
         [-30, 0, 15, 20, 20, 15, 0, -30],
         [-30, 5, 10, 15, 15, 10, 5, -30],
         [-40, -20, 0, 5, 5, 0, -20, -40],
         [-50, -40, -30, -30, -30, -30, -40, -50]]
     | Bishop \<Rightarrow>
        [[-20, -10, -10, -10, -10, -10, -10, -20],
         [-10, 0, 0, 0, 0, 0, 0, -10],
         [-10, 0, 5, 10, 10, 5, 0, -10],
         [-10, 5, 5, 10, 10, 5, 5, -10],
         [-10, 0, 10, 10, 10, 10, 0, -10],
         [-10, 10, 10, 10, 10, 10, 10, -10],
         [-10, 5, 0, 0, 0, 0, 5, -10],
         [-20, -10, -10, -10, -10, -10, -10, -20]]
     | Rook \<Rightarrow>
        [[0, 0, 0, 0, 0, 0, 0, 0],
         [5, 10, 10, 10, 10, 10, 10, 5],
         [-5, 0, 0, 0, 0, 0, 0, -5],
         [-5, 0, 0, 0, 0, 0, 0, -5],
         [-5, 0, 0, 0, 0, 0, 0, -5],
         [-5, 0, 0, 0, 0, 0, 0, -5],
         [-5, 0, 0, 0, 0, 0, 0, -5],
         [0, 0, 0, 5, 5, 0, 0, 0]]
     | Queen \<Rightarrow>
        [[-20, -10, -10, -5, -5, -10, -10, -20],
         [-10, 0, 0, 0, 0, 0, 0, -10],
         [-10, 0, 5, 5, 5, 5, 0, -10],
         [-5, 0, 5, 5, 5, 5, 0, -5],
         [0, 0, 5, 5, 5, 5, 0, -5],
         [-10, 5, 5, 5, 5, 5, 0, -10],
         [-10, 0, 5, 0, 0, 0, 0, -10],
         [-20, -10, -10, -5, -5, -10, -10, -20]]
     | King \<Rightarrow>
        [[-30, -40, -40, -50, -50, -40, -40, -30],
         [-30, -40, -40, -50, -50, -40, -40, -30],
         [-30, -40, -40, -50, -50, -40, -40, -30],
         [-30, -40, -40, -50, -50, -40, -40, -30],
         [-20, -30, -30, -40, -40, -30, -30, -20],
         [-10, -20, -20, -20, -20, -20, -20, -10],
         [20, 20, 0, 0, 0, 0, 20, 20],
         [20, 30, 10, 0, 0, 10, 30, 20]])"

text \<open>\<open>PST[type]?.[pstRow]?.[col] || 0\<close>.\<close>

definition pstAt :: "pieceType \<Rightarrow> int \<Rightarrow> int \<Rightarrow> int" where
  "pstAt t r c = (if 0 \<le> r \<and> r \<le> 7 \<and> 0 \<le> c \<and> c \<le> 7 then PST t ! nat r ! nat c else 0)"

text \<open>The body of the two loops of \<open>evaluate\<close> for one square, on the running score.\<close>

definition scoreSquare :: "game \<Rightarrow> int \<times> int \<Rightarrow> int \<Rightarrow> int" where
  "scoreSquare g sq score =
    (case cellAt (board g) (fst sq) (snd sq) of
       None \<Rightarrow> score
     | Some p \<Rightarrow>
        (let multiplier = (if fst p = White then 1 else -1);
             score1 = score + multiplier * PIECE_VALUES (snd p);
             pstRow = (if fst p = White then fst sq else 7 - fst sq)
         in score1 + multiplier * pstAt (snd p) pstRow (snd sq)))"

definition evaluate :: "game \<Rightarrow> int" where
  "evaluate g =
    (let score = fold (scoreSquare g) allSquares 0;
         score1 = (if isInCheck g Black then score + 50 else score)
     in (if isInCheck g White then score1 - 50 else score1))"

section \<open>Chaos mode (chess/ai.js)\<close>

















section \<open>The static evaluation\<close>

text \<open>
  The claimed evaluation, in the words of the specification: over the occupied squares,
  the signed material value plus the signed table bonus of the piece's kind and square
  (the table mirrored vertically for Black) ...
\<close>

fun pieceScore :: "cell \<Rightarrow> int \<Rightarrow> int \<Rightarrow> int" where
  "pieceScore None r c = 0"
| "pieceScore (Some (White, t)) r c = PIECE_VALUES t + PST t ! nat r ! nat c"
| "pieceScore (Some (Black, t)) r c = - (PIECE_VALUES t + PST t ! nat (7 - r) ! nat c)"

definition positionalSum :: "game \<Rightarrow> int" where
  "positionalSum g = (\<Sum>(r, c)\<leftarrow>allSquares. pieceScore (cellAt (board g) r c) r c)"

text \<open>... plus a flat 50 for White or against White exactly when the side not to move is in check.\<close>

definition specEvaluate :: "game \<Rightarrow> int" where
  "specEvaluate g =
    positionalSum g +
    (if isInCheck g (enemyOf (turn g)) then (if turn g = White then 50 else -50) else 0)"

lemma scoreSquare_pieceScore:
  "scoreSquare g sq score = score + pieceScore (cellAt (board g) (fst sq) (snd sq)) (fst sq) (snd sq)"
proof (cases "cellAt (board g) (fst sq) (snd sq)")
  case None
  then show ?thesis by (simp add: scoreSquare_def)
next
  case (Some p)
  then have r: "0 \<le> fst sq \<and> fst sq \<le> 7 \<and> 0 \<le> snd sq \<and> snd sq \<le> 7"
    by (auto simp: cellAt_def split: if_splits)
  obtain k t where p: "p = (k, t)" by (cases p)
  show ?thesis
    using Some r by (cases k) (simp_all add: scoreSquare_def p pstAt_def Let_def)
qed

lemma fold_scoreSquare:
  "fold (scoreSquare g) sqs score =
     score + (\<Sum>(r, c)\<leftarrow>sqs. pieceScore (cellAt (board g) r c) r c)"
  by (induction sqs arbitrary: score) (simp_all add: scoreSquare_pieceScore split_beta)

text \<open>
  C7, as the code has it. The static evaluation is the sum over the 64 squares of the
  signed material value and table bonus of the piece on it, plus 50 when Black is in
  check, minus 50 when White is in check: both adjustments are applied whichever side is
  to move.
\<close>

theorem evaluate_formula:
  "evaluate g =
     positionalSum g + (if isInCheck g Black then 50 else 0) - (if isInCheck g White then 50 else 0)"
  by (simp add: evaluate_def positionalSum_def fold_scoreSquare Let_def)

lemma evaluate_agrees_when_mover_safe:
  "\<not> isInCheck g (turn g) \<Longrightarrow> evaluate g = specEvaluate g"
  by (cases "turn g")
    (simp_all add: evaluate_def positionalSum_def fold_scoreSquare Let_def specEvaluate_def
      enemyOf_def)

lemma evaluate_fm4: "evaluate fm4 = - 120"
  by code_simp

lemma specEvaluate_fm4: "specEvaluate fm4 = - 70"
  by code_simp

text \<open>
  C7 as claimed fails where the side to move is in check: after the fool's mate White is
  to move and in check, the code subtracts 50 and the claimed formula adjusts nothing.
\<close>

theorem evaluate_not_as_claimed: "evaluate fm4 \<noteq> specEvaluate fm4"
  by (simp add: evaluate_fm4 specEvaluate_fm4)

section \<open>The win turn of chaos mode\<close>










section \<open>The shape of generated moves\<close>

lemma addMove_shape:
  assumes "m \<in> set (addMove g c tr tc dbl ep)"
  shows "toRow m = tr \<and> toCol m = tc \<and> 0 \<le> tr \<and> tr \<le> 7 \<and> 0 \<le> tc \<and> tc \<le> 7 \<and>
         promotion m = None \<and> castle m = None \<and> doublePawn m = dbl \<and> enPassant m = ep \<and>
         (\<forall>q. cellAt (board g) tr tc = Some q \<longrightarrow> fst q \<noteq> c)"
  using assms by (auto simp: addMove_def split: if_splits option.splits)

lemma promotionMoves_shape:
  assumes "m \<in> set (promotionMoves tr tc cap)"
  shows "toRow m = tr \<and> toCol m = tc \<and> castle m = None \<and> \<not> doublePawn m \<and> \<not> enPassant m \<and>
         capture m = cap \<and> (\<exists>k \<in> set promotionOptions. promotion m = Some k)"
  using assms by (auto simp: promotionMoves_def)

lemma rayMoves_shape:
  assumes "m \<in> set (rayMoves g c row col dr dc is)"
  shows "\<exists>i \<in> set is. m \<in> set (addMove g c (row + dr * i) (col + dc * i) False False)"
  using assms
  by (induction "is") (auto split: if_splits option.splits)

lemma slideMoves_shape:
  assumes "m \<in> set (slideMoves g c row col dirs)"
  shows "\<exists>tr tc. m \<in> set (addMove g c tr tc False False)"
proof -
  from assms obtain dr dc where "m \<in> set (rayMoves g c row col dr dc [1, 2, 3, 4, 5, 6, 7])"
    by (auto simp: slideMoves_def simp del: rayMoves.simps)
  then show ?thesis by (blast dest: rayMoves_shape)
qed

lemma stepMoves_shape:
  assumes "m \<in> set (stepMoves g c row col steps)"
  shows "\<exists>dr dc. (dr, dc) \<in> set steps \<and> m \<in> set (addMove g c (row + dr) (col + dc) False False)"
  using assms by (auto simp: stepMoves_def)

lemma pawnMoves_castle:
  assumes "m \<in> set (pawnMoves g row col c)"
  shows "castle m = None"
proof -
  from assms consider tr tc dbl ep where "m \<in> set (addMove g c tr tc dbl ep)"
    | tr tc cap where "m \<in> set (promotionMoves tr tc cap)"
    by (auto simp: pawnMoves_def pawnForward_def pawnCapture_def Let_def
        split: if_splits option.splits)
  then show ?thesis
    by cases (auto dest: addMove_shape promotionMoves_shape)
qed

lemma castlingMoves_shape:
  assumes "m \<in> set (castlingMoves g row col c)"
  shows "row = (if c = White then 7 else 0) \<and> col = 4 \<and> \<not> isInCheck g c \<and> toRow m = row \<and>
         promotion m = None \<and> \<not> doublePawn m \<and> \<not> enPassant m \<and> \<not> capture m \<and>
         ((castle m = Some CastleK \<and> toCol m = 6 \<and>
           kingSide (rightsOf (castling g) c) \<and>
           cellAt (board g) row 5 = None \<and> cellAt (board g) row 6 = None \<and>
           cellAt (board g) row 7 = Some (c, Rook) \<and>
           \<not> isSquareAttacked g row 5 (enemyOf c) \<and> \<not> isSquareAttacked g row 6 (enemyOf c)) \<or>
          (castle m = Some CastleQ \<and> toCol m = 2 \<and>
           queenSide (rightsOf (castling g) c) \<and>
           cellAt (board g) row 1 = None \<and> cellAt (board g) row 2 = None \<and>
           cellAt (board g) row 3 = None \<and> cellAt (board g) row 0 = Some (c, Rook) \<and>
           \<not> isSquareAttacked g row 2 (enemyOf c) \<and> \<not> isSquareAttacked g row 3 (enemyOf c)))"
  using assms
  by (auto simp: castlingMoves_def castleMove_def Let_def split: if_splits)

lemma castle_flag_origin:
  assumes "m \<in> set (getPseudoLegalMoves g row col p)" and "castle m \<noteq> None"
  shows "snd p = King \<and> m \<in> set (castlingMoves g row col (fst p))"
proof (cases "snd p")
  case Pawn
  with assms show ?thesis by (auto simp: getPseudoLegalMoves_def dest: pawnMoves_castle)
next
  case Knight
  with assms show ?thesis
    by (auto simp: getPseudoLegalMoves_def dest!: stepMoves_shape dest: addMove_shape)
next
  case Bishop
  with assms show ?thesis
    by (auto simp: getPseudoLegalMoves_def dest!: slideMoves_shape dest: addMove_shape)
next
  case Rook
  with assms show ?thesis
    by (auto simp: getPseudoLegalMoves_def dest!: slideMoves_shape dest: addMove_shape)
next
  case Queen
  with assms show ?thesis
    by (auto simp: getPseudoLegalMoves_def dest!: slideMoves_shape dest: addMove_shape)
next
  case King
  with assms show ?thesis
    by (auto simp: getPseudoLegalMoves_def dest!: stepMoves_shape dest: addMove_shape)
qed


section \<open>Castling\<close>

definition emptyRow :: "cell list" where
  "emptyRow = [None, None, None, None, None, None, None, None]"

definition noRights :: rights where
  "noRights = \<lparr> kingSide = False, queenSide = False \<rparr>"





lemma no_castle_when_f_attacked:
  assumes "isSquareAttacked g (if turn g = White then 7 else 0) 5 (enemyOf (turn g))"
    and "m \<in> set (getLegalMoves g row col)"
  shows "castle m \<noteq> Some CastleK"
proof
  assume k: "castle m = Some CastleK"
  from assms(2) obtain p where c: "cellAt (board g) row col = Some p"
    by (cases "cellAt (board g) row col") (simp_all add: getLegalMoves_empty_square)
  note p = getLegalMoves_mover(1,2) [OF assms(2) c]
  from castle_flag_origin [OF p(2)] k
  have "m \<in> set (castlingMoves g row col (fst p))" by simp
  from castlingMoves_shape [OF this] k assms(1) p(1) show False by auto
qed








section \<open>Boards of eight rows of eight cells\<close>

definition wf_board :: "board \<Rightarrow> bool" where
  "wf_board b \<longleftrightarrow> length b = 8 \<and> (\<forall>row \<in> set b. length row = 8)"

definition onBoard :: "int \<Rightarrow> int \<Rightarrow> bool" where
  "onBoard r c \<longleftrightarrow> 0 \<le> r \<and> r \<le> 7 \<and> 0 \<le> c \<and> c \<le> 7"

lemma wf_board_setCell:
  assumes "wf_board b" shows "wf_board (setCell b r c v)"
proof -
  have "length row = 8" if "row \<in> set (b[nat r := (b ! nat r)[nat c := v]])" for row
  proof -
    from that have "row = (b ! nat r)[nat c := v] \<and> nat r < length b \<or> row \<in> set b"
      by (metis in_set_conv_nth length_list_update nth_list_update_eq nth_list_update_neq)
    with assms show ?thesis by (auto simp: wf_board_def)
  qed
  with assms show ?thesis by (simp add: wf_board_def setCell_def)
qed

lemma cellAt_setCell:
  assumes "wf_board b" and "onBoard r c"
  shows "cellAt (setCell b r c v) r' c' = (if r' = r \<and> c' = c then v else cellAt b r' c')"
proof (cases "onBoard r' c'")
  case False
  with assms show ?thesis by (auto simp: cellAt_def onBoard_def)
next
  case True
  from assms True have len: "nat r < length b" "nat r' < length b"
    "nat c < length (b ! nat r)" "nat c' < length (b ! nat r')"
    by (auto simp: wf_board_def onBoard_def)
  from assms True have eqs: "nat r' = nat r \<longleftrightarrow> r' = r" "nat c' = nat c \<longleftrightarrow> c' = c"
    by (auto simp: onBoard_def)
  show ?thesis
    using True len eqs by (auto simp: cellAt_def setCell_def onBoard_def nth_list_update)
qed

lemma cellAt_onBoard: "cellAt b r c = Some p \<Longrightarrow> onBoard r c"
  by (auto simp: cellAt_def onBoard_def split: if_splits)

lemma wf_INITIAL_BOARD: "wf_board INITIAL_BOARD"
  by (simp add: wf_board_def INITIAL_BOARD_def)

section \<open>The shape of pawn moves\<close>

definition pawnDir :: "color \<Rightarrow> int" where
  "pawnDir c = (if c = White then -1 else 1)"

lemma pawnForward_cases:
  assumes "m \<in> set (pawnForward g row col c)"
  shows
    "cellAt (board g) (row + pawnDir c) col = None \<and>
     ((m \<in> set (promotionMoves (row + pawnDir c) col False) \<and>
         row + pawnDir c = (if c = White then 0 else 7)) \<or>
      m \<in> set (addMove g c (row + pawnDir c) col False False) \<or>
      (m \<in> set (addMove g c (row + 2 * pawnDir c) col True False) \<and>
         row = (if c = White then 6 else 1) \<and>
         cellAt (board g) (row + 2 * pawnDir c) col = None))"
  using assms unfolding pawnForward_def Let_def pawnDir_def
  by (auto split: if_splits)

lemma pawnCapture_cases:
  assumes "m \<in> set (pawnCapture g row col c dc)"
  shows
    "0 \<le> col + dc \<and> col + dc \<le> 7 \<and>
     ((\<exists>k. cellAt (board g) (row + pawnDir c) (col + dc) = Some (enemyOf c, k) \<and>
         ((m \<in> set (promotionMoves (row + pawnDir c) (col + dc) True) \<and>
             row + pawnDir c = (if c = White then 0 else 7)) \<or>
          m \<in> set (addMove g c (row + pawnDir c) (col + dc) False False))) \<or>
      (enPassantTarget g = Some (row + pawnDir c, col + dc) \<and>
         m \<in> set (addMove g c (row + pawnDir c) (col + dc) False True)))"
proof (cases "cellAt (board g) (row + pawnDir c) (col + dc)")
  case None
  with assms show ?thesis
    unfolding pawnCapture_def Let_def pawnDir_def by (auto split: if_splits)
next
  case (Some t)
  obtain k' k where t: "t = (k', k)" by (cases t)
  from assms Some show ?thesis
    unfolding pawnCapture_def Let_def pawnDir_def t by (auto split: if_splits)
qed

lemma pawnMoves_cases:
  assumes "m \<in> set (pawnMoves g row col c)"
  shows "m \<in> set (pawnForward g row col c) \<or>
         (\<exists>dc. (dc = -1 \<or> dc = 1) \<and> m \<in> set (pawnCapture g row col c dc))"
  using assms by (auto simp: pawnMoves_def)


lemma color_neq:
  "a \<noteq> White \<longleftrightarrow> a = Black" "a \<noteq> Black \<longleftrightarrow> a = White"
  "a \<noteq> enemyOf c \<longleftrightarrow> a = c" "enemyOf c \<noteq> c" "a = enemyOf c \<longleftrightarrow> a \<noteq> c"
  by (cases a; cases c; simp add: enemyOf_def)+

lemma enemyOf_simps: "enemyOf White = Black" "enemyOf Black = White"
  by (simp_all add: enemyOf_def)

lemma pawnMoves_shape:
  assumes "m \<in> set (pawnMoves g row col c)" and "onBoard row col"
  shows "onBoard (toRow m) (toCol m) \<and> castle m = None \<and>
         (if doublePawn m
          then toRow m = row + 2 * pawnDir c \<and> toCol m = col \<and> promotion m = None \<and>
               \<not> enPassant m \<and> row = (if c = White then 6 else 1) \<and>
               cellAt (board g) (toRow m) (toCol m) = None
          else toRow m = row + pawnDir c) \<and>
         (\<forall>q. cellAt (board g) (toRow m) (toCol m) = Some q \<longrightarrow>
            fst q = enemyOf c \<and> toRow m = row + pawnDir c \<and>
            (toCol m = col - 1 \<or> toCol m = col + 1)) \<and>
         (\<forall>k. promotion m = Some k \<longrightarrow> k \<in> set promotionOptions)"
proof -
  from pawnMoves_cases [OF assms(1)] show ?thesis
  proof
    assume "m \<in> set (pawnForward g row col c)"
    from pawnForward_cases [OF this] assms(2) show ?thesis
      by (auto dest!: addMove_shape promotionMoves_shape
          simp: onBoard_def pawnDir_def split: if_splits)
  next
    assume "\<exists>dc. (dc = -1 \<or> dc = 1) \<and> m \<in> set (pawnCapture g row col c dc)"
    then obtain dc where dc: "dc = -1 \<or> dc = 1" and m: "m \<in> set (pawnCapture g row col c dc)"
      by blast
    from pawnCapture_cases [OF m] dc assms(2) show ?thesis
      by (auto dest!: addMove_shape promotionMoves_shape
          simp: onBoard_def pawnDir_def color_neq enemyOf_simps split: if_splits)
  qed
qed


section \<open>The board after a move\<close>

lemma movedBoard_no_castle:
  assumes wf: "wf_board (board g)" and fr: "onBoard fRow fCol" and to: "onBoard tRow tCol"
    and nc: "castle mv = None"
    and cap: "snd p = Pawn \<and> enPassantTarget g = Some (tRow, tCol) \<longrightarrow>
           onBoard (if fst p = White then tRow + 1 else tRow - 1) tCol"
  shows "cellAt (movedBoard g fRow fCol tRow tCol p mv promo) r c =
    (if r = fRow \<and> c = fCol then None
     else if r = tRow \<and> c = tCol
       then (case promo of Some k \<Rightarrow> Some (fst p, k) | None \<Rightarrow> Some p)
     else if snd p = Pawn \<and> enPassantTarget g = Some (tRow, tCol) \<and>
             r = (if fst p = White then tRow + 1 else tRow - 1) \<and> c = tCol then None
     else cellAt (board g) r c)"
proof -
  define b1 where "b1 = (if snd p = Pawn \<and> enPassantTarget g = Some (tRow, tCol)
               then setCell (board g) (if fst p = White then tRow + 1 else tRow - 1) tCol None
               else board g)"
  define v where "v = (case promo of Some k \<Rightarrow> Some (fst p, k) | None \<Rightarrow> Some p)"
  have wf1: "wf_board b1" using wf by (simp add: b1_def wf_board_setCell)
  have c1: "cellAt b1 r c =
      (if snd p = Pawn \<and> enPassantTarget g = Some (tRow, tCol) \<and>
             r = (if fst p = White then tRow + 1 else tRow - 1) \<and> c = tCol then None
       else cellAt (board g) r c)"
    using cap wf by (simp add: b1_def cellAt_setCell)
  have m: "movedBoard g fRow fCol tRow tCol p mv promo =
      setCell (setCell b1 tRow tCol v) fRow fCol None"
    by (simp add: movedBoard_def Let_def b1_def v_def nc)
  have "cellAt (setCell (setCell b1 tRow tCol v) fRow fCol None) r c =
      (if r = fRow \<and> c = fCol then None else if r = tRow \<and> c = tCol then v else cellAt b1 r c)"
    using wf1 fr to by (simp add: cellAt_setCell wf_board_setCell)
  then show ?thesis unfolding m c1 v_def .
qed

lemma wf_board_movedBoard:
  assumes "wf_board (board g)"
  shows "wf_board (movedBoard g fRow fCol tRow tCol p mv promo)"
  using assms
  by (simp add: movedBoard_def Let_def wf_board_setCell split: option.split castleSide.split)

lemma executeMove_board:
  "board (resGame (executeMove g fRow fCol tRow tCol p mv promo)) =
     movedBoard g fRow fCol tRow tCol p mv promo"
  using concludeMove_fields(2)
  by (simp add: executeMove_def sameCore_def movedGame_fields)

lemma executeMove_record:
  "\<exists>x y z. resMove (executeMove g fRow fCol tRow tCol p mv promo) =
     Some ((newRecord g fRow fCol tRow tCol p mv promo)
             \<lparr> mrCheck := x, mrCheckmate := y, mrStalemate := z \<rparr>)"
  unfolding executeMove_def concludeMove_fields(1) by blast

text \<open>
  C6. When a pawn is moved by \<open>makeMove\<close> onto the en passant target, the target square
  being empty, the record has the \<open>enPassant\<close> flag and an enemy pawn as \<open>captured\<close>, the
  square behind the target (where the enemy pawn landed after its double step) is empty
  afterwards, and the target square holds the capturing pawn.
\<close>

theorem enPassant_removes_landed_pawn:
  assumes "fst (makeMove g fRow fCol tRow tCol po rnd) = Inr res" and "valid res"
    and "wf_board (board g)"
    and "cellAt (board g) fRow fCol = Some (c, Pawn)"
    and "enPassantTarget g = Some (tRow, tCol)"
    and "cellAt (board g) tRow tCol = None"
  shows "\<exists>r. resMove res = Some r \<and> mrEnPassant r \<and> mrCaptured r = Some (enemyOf c, Pawn) \<and>
     cellAt (board (resGame res)) (if c = White then tRow + 1 else tRow - 1) tCol = None \<and>
     cellAt (board (resGame res)) tRow tCol =
       Some (c, case mrPromotion r of None \<Rightarrow> Pawn | Some k \<Rightarrow> k)"
proof -
  from assms(1,2) obtain p mv where p: "cellAt (board g) fRow fCol = Some p"
    and mv: "List.find (\<lambda>m. toRow m = tRow \<and> toCol m = tCol) (getLegalMoves g fRow fCol) = Some mv"
    and res: "res = executeMove g fRow fCol tRow tCol p mv (chosenPromotion mv po rnd)"
    by (rule makeMove_valid_cases)
  from p assms(4) have pc: "p = (c, Pawn)" by simp
  from mv have leg: "mv \<in> set (getLegalMoves g fRow fCol)" and to: "toRow mv = tRow" "toCol mv = tCol"
    by (auto dest: find_Some_set)
  from getLegalMoves_mover(2) [OF leg p] have "mv \<in> set (pawnMoves g fRow fCol c)"
    by (simp add: getPseudoLegalMoves_def pc)
  from pawnMoves_shape [OF this cellAt_onBoard [OF p]] to
  have sh: "onBoard tRow tCol" "castle mv = None"
    "tRow = fRow + pawnDir c \<or> tRow = fRow + 2 * pawnDir c \<and> fRow = (if c = White then 6 else 1)"
    by (auto split: if_splits)
  from cellAt_onBoard [OF p] have fr: "onBoard fRow fCol" .
  from sh(1,3) fr have cap: "onBoard (if c = White then tRow + 1 else tRow - 1) tCol"
    by (auto simp: onBoard_def pawnDir_def)
  from sh(3) have ne: "tRow \<noteq> fRow" by (auto simp: pawnDir_def split: if_splits)
  let ?promo = "chosenPromotion mv po rnd"
  note mb = movedBoard_no_castle [of g fRow fCol tRow tCol mv p ?promo, OF assms(3) fr sh(1) sh(2)]
  have b1: "cellAt (movedBoard g fRow fCol tRow tCol p mv ?promo)
              (if c = White then tRow + 1 else tRow - 1) tCol = None"
    using cap assms(5) by (subst mb) (auto simp: pc)
  have b2: "cellAt (movedBoard g fRow fCol tRow tCol p mv ?promo) tRow tCol =
              Some (c, case ?promo of None \<Rightarrow> Pawn | Some k \<Rightarrow> k)"
    using cap ne by (subst mb) (auto simp: pc split: option.splits)
  from executeMove_record [of g fRow fCol tRow tCol p mv ?promo] obtain x y z where
    r: "resMove res = Some ((newRecord g fRow fCol tRow tCol p mv ?promo)
          \<lparr> mrCheck := x, mrCheckmate := y, mrStalemate := z \<rparr>)"
    by (auto simp: res)
  show ?thesis
    using r b1 b2 assms(5,6)
    by (simp add: res executeMove_board newRecord_def Let_def pc)
qed

section \<open>A game with an en passant capture and a promotion\<close>

text \<open>
  1. a4 b5 2. axb5 a5 3. bxa6 (en passant) h6 4. a7 h5 5. axb8, promoting with the
  \<open>promotionOverride\<close> argument \<open>'k'\<close>.
\<close>

definition pg1 :: game where
  "pg1 = createGame\<lparr> board := movePiece INITIAL_BOARD (6, 0) (4, 0), turn := Black,
           enPassantTarget := Some (5, 0),
           moveHistory := [quietRecord (6, 0) (4, 0) (White, Pawn)] \<rparr>"

definition pg2 :: game where
  "pg2 = pg1\<lparr> board := movePiece (board pg1) (1, 1) (3, 1), turn := White,
           enPassantTarget := Some (2, 1), fullMoveNumber := 2,
           moveHistory := moveHistory pg1 @ [quietRecord (1, 1) (3, 1) (Black, Pawn)] \<rparr>"

definition pg3 :: game where
  "pg3 = pg2\<lparr> board := movePiece (board pg2) (4, 0) (3, 1), turn := Black,
           enPassantTarget := None,
           moveHistory := moveHistory pg2 @
             [(quietRecord (4, 0) (3, 1) (White, Pawn))\<lparr> mrCaptured := Some (Black, Pawn) \<rparr>] \<rparr>"

definition pg4 :: game where
  "pg4 = pg3\<lparr> board := movePiece (board pg3) (1, 0) (3, 0), turn := White,
           enPassantTarget := Some (2, 0), fullMoveNumber := 3,
           moveHistory := moveHistory pg3 @ [quietRecord (1, 0) (3, 0) (Black, Pawn)] \<rparr>"

definition pg5Record :: moveRecord where
  "pg5Record = (quietRecord (3, 1) (2, 0) (White, Pawn))
                 \<lparr> mrCaptured := Some (Black, Pawn), mrEnPassant := True \<rparr>"

definition pg5 :: game where
  "pg5 = pg4\<lparr> board := setCell (movePiece (board pg4) (3, 1) (2, 0)) 3 0 None, turn := Black,
           enPassantTarget := None,
           moveHistory := moveHistory pg4 @ [pg5Record] \<rparr>"

definition pg6 :: game where
  "pg6 = pg5\<lparr> board := movePiece (board pg5) (1, 7) (2, 7), turn := White,
           fullMoveNumber := 4,
           moveHistory := moveHistory pg5 @ [quietRecord (1, 7) (2, 7) (Black, Pawn)] \<rparr>"

definition pg7 :: game where
  "pg7 = pg6\<lparr> board := movePiece (board pg6) (2, 0) (1, 0), turn := Black,
           moveHistory := moveHistory pg6 @ [quietRecord (2, 0) (1, 0) (White, Pawn)] \<rparr>"

definition pg8 :: game where
  "pg8 = pg7\<lparr> board := movePiece (board pg7) (2, 7) (3, 7), turn := White,
           fullMoveNumber := 5,
           moveHistory := moveHistory pg7 @ [quietRecord (2, 7) (3, 7) (Black, Pawn)] \<rparr>"

definition pg9Record :: moveRecord where
  "pg9Record = (quietRecord (1, 0) (0, 1) (White, Pawn))
                 \<lparr> mrCaptured := Some (Black, Knight), mrPromotion := Some King \<rparr>"

definition pg9 :: game where
  "pg9 = pg8\<lparr> board := setCell (setCell (board pg8) 0 1 (Some (White, King))) 1 0 None,
           turn := Black,
           moveHistory := moveHistory pg8 @ [pg9Record] \<rparr>"

text \<open>The number of kings of a colour on a board.\<close>

definition countKings :: "board \<Rightarrow> color \<Rightarrow> nat" where
  "countKings b c = length (filter (\<lambda>(r, k). cellAt b r k = Some (c, King)) allSquares)"

lemma pg_ply1:
  "fst (makeMove createGame 6 0 4 0 None noDraws) =
     Inr \<lparr> resGame = pg1, valid = True, resMove = Some (quietRecord (6, 0) (4, 0) (White, Pawn)) \<rparr>"
  by code_simp

lemma pg_ply2:
  "fst (makeMove pg1 1 1 3 1 None noDraws) =
     Inr \<lparr> resGame = pg2, valid = True, resMove = Some (quietRecord (1, 1) (3, 1) (Black, Pawn)) \<rparr>"
  by code_simp

lemma pg_ply3:
  "fst (makeMove pg2 4 0 3 1 None noDraws) =
     Inr \<lparr> resGame = pg3, valid = True, resMove = Some ((quietRecord (4, 0) (3, 1) (White, Pawn))\<lparr> mrCaptured := Some (Black, Pawn) \<rparr>) \<rparr>"
  by code_simp

lemma pg_ply4:
  "fst (makeMove pg3 1 0 3 0 None noDraws) =
     Inr \<lparr> resGame = pg4, valid = True, resMove = Some (quietRecord (1, 0) (3, 0) (Black, Pawn)) \<rparr>"
  by code_simp

lemma pg_ply5:
  "fst (makeMove pg4 3 1 2 0 None noDraws) =
     Inr \<lparr> resGame = pg5, valid = True, resMove = Some (pg5Record) \<rparr>"
  by code_simp

lemma pg_ply6:
  "fst (makeMove pg5 1 7 2 7 None noDraws) =
     Inr \<lparr> resGame = pg6, valid = True, resMove = Some (quietRecord (1, 7) (2, 7) (Black, Pawn)) \<rparr>"
  by code_simp

lemma pg_ply7:
  "fst (makeMove pg6 2 0 1 0 None noDraws) =
     Inr \<lparr> resGame = pg7, valid = True, resMove = Some (quietRecord (2, 0) (1, 0) (White, Pawn)) \<rparr>"
  by code_simp

lemma pg_ply8:
  "fst (makeMove pg7 2 7 3 7 None noDraws) =
     Inr \<lparr> resGame = pg8, valid = True, resMove = Some (quietRecord (2, 7) (3, 7) (Black, Pawn)) \<rparr>"
  by code_simp

lemma pg_ply9:
  "fst (makeMove pg8 1 0 0 1 (Some King) noDraws) =
     Inr \<lparr> resGame = pg9, valid = True, resMove = Some (pg9Record) \<rparr>"
  by code_simp


lemma pg9_kings: "countKings (board pg9) White = 2"
  by code_simp

section \<open>Promotion and en passant through makeMove\<close>

lemma promotion_flag_origin:
  assumes "m \<in> set (getPseudoLegalMoves g row col p)" and "promotion m \<noteq> None"
  shows "snd p = Pawn \<and> m \<in> set (pawnMoves g row col (fst p))"
proof (cases "snd p")
  case Pawn
  with assms show ?thesis by (auto simp: getPseudoLegalMoves_def)
next
  case Knight
  with assms show ?thesis
    by (auto simp: getPseudoLegalMoves_def dest!: stepMoves_shape dest: addMove_shape)
next
  case Bishop
  with assms show ?thesis
    by (auto simp: getPseudoLegalMoves_def dest!: slideMoves_shape dest: addMove_shape)
next
  case Rook
  with assms show ?thesis
    by (auto simp: getPseudoLegalMoves_def dest!: slideMoves_shape dest: addMove_shape)
next
  case Queen
  with assms show ?thesis
    by (auto simp: getPseudoLegalMoves_def dest!: slideMoves_shape dest: addMove_shape)
next
  case King
  with assms show ?thesis
    by (auto simp: getPseudoLegalMoves_def dest!: stepMoves_shape castlingMoves_shape
        dest: addMove_shape)
qed

text \<open>
  C10. The outcome \<open>valid\<close> of \<open>makeMove\<close> does not depend on \<open>promotionOverride\<close>; and
  when the matched legal move is a promotion and an override \<open>k\<close> is given, whatever
  kind \<open>k\<close> is, the move is applied, the record's promotion is \<open>k\<close> and the destination
  holds a piece of kind \<open>k\<close> of the mover's colour.
\<close>

theorem makeMove_promotion_unchecked:
  assumes "wf_board (board g)"
    and "List.find (\<lambda>m. toRow m = tRow \<and> toCol m = tCol) (getLegalMoves g fRow fCol) = Some mv"
    and "promotion mv \<noteq> None"
  shows "\<exists>res r. fst (makeMove g fRow fCol tRow tCol (Some k) rnd) = Inr res \<and> valid res \<and>
           resMove res = Some r \<and> mrPromotion r = Some k \<and>
           cellAt (board (resGame res)) tRow tCol = Some (turn g, k) \<and>
           (\<forall>po' rnd'. \<exists>res'. fst (makeMove g fRow fCol tRow tCol po' rnd') = Inr res' \<and> valid res')"
proof -
  from assms(2) have leg: "mv \<in> set (getLegalMoves g fRow fCol)"
    and to: "toRow mv = tRow" "toCol mv = tCol"
    by (auto dest: find_Some_set)
  from leg obtain p where p: "cellAt (board g) fRow fCol = Some p"
    by (cases "cellAt (board g) fRow fCol") (auto simp: getLegalMoves_empty_square)
  from cellAt_onBoard [OF p] have fr: "onBoard fRow fCol" .
  then have r: "0 \<le> fRow" "fRow \<le> 7" by (simp_all add: onBoard_def)
  note mover = getLegalMoves_mover [OF leg p]
  from promotion_flag_origin [OF mover(2) assms(3)]
  have pawn: "snd p = Pawn" and pm: "mv \<in> set (pawnMoves g fRow fCol (fst p))" by simp_all
  from pawnMoves_shape [OF pm fr] to
  have sh: "onBoard tRow tCol" "castle mv = None" "tRow \<noteq> fRow"
    by (auto simp: pawnDir_def split: if_splits)
  have any: "fst (makeMove g fRow fCol tRow tCol po' rnd') =
      Inr (executeMove g fRow fCol tRow tCol p mv (chosenPromotion mv po' rnd'))" for po' rnd'
    by (rule makeMove_applies [OF r p assms(2)])
  have ch: "chosenPromotion mv (Some k) rnd = Some k"
    using assms(3) by (auto simp: chosenPromotion_def)
  let ?res = "executeMove g fRow fCol tRow tCol p mv (Some k)"
  from executeMove_record [of g fRow fCol tRow tCol p mv "Some k"] obtain x y z where
    rec: "resMove ?res = Some ((newRecord g fRow fCol tRow tCol p mv (Some k))
          \<lparr> mrCheck := x, mrCheckmate := y, mrStalemate := z \<rparr>)"
    by blast
  have cap: "snd p = Pawn \<and> enPassantTarget g = Some (tRow, tCol) \<longrightarrow>
           onBoard (if fst p = White then tRow + 1 else tRow - 1) tCol"
    using pawnMoves_shape [OF pm fr] to fr sh(1)
    by (auto simp: onBoard_def pawnDir_def split: if_splits)
  have cell: "cellAt (board (resGame ?res)) tRow tCol = Some (turn g, k)"
    unfolding executeMove_board
    by (subst movedBoard_no_castle [OF assms(1) fr sh(1) sh(2) cap]) (simp add: sh(3) mover(1))
  show ?thesis
    using any [of "Some k" rnd] any rec cell
    by (auto simp: ch executeMove_valid newRecord_def Let_def)
qed

theorem makeMove_promotion_unchecked_witness:
  "wf_board (board pg8) \<and>
   fst (makeMove pg8 1 0 0 1 (Some King) noDraws) =
     Inr \<lparr> resGame = pg9, valid = True, resMove = Some pg9Record \<rparr> \<and>
   mrPromotion pg9Record = Some King \<and>
   cellAt (board pg9) 0 1 = Some (White, King) \<and>
   cellAt (board pg9) 7 4 = Some (White, King) \<and>
   countKings (board pg9) White = 2"
proof -
  have wf: "wf_board (board pg8)"
    by (simp add: pg8_def pg7_def pg6_def pg5_def pg4_def pg3_def pg2_def pg1_def movePiece_def
        wf_board_setCell wf_INITIAL_BOARD)
  have f: "List.find (\<lambda>m. toRow m = 0 \<and> toCol m = 1) (getLegalMoves pg8 1 0) =
      Some \<lparr> toRow = 0, toCol = 1, capture = True, promotion = Some Queen, castle = None,
             doublePawn = False, enPassant = False \<rparr>"
    by code_simp
  have t: "turn pg8 = White" by (simp add: pg8_def)
  have e1: "cellAt (board pg9) 7 4 = Some (White, King)" by code_simp
  from makeMove_promotion_unchecked [OF wf f, of King noDraws]
  have "cellAt (board pg9) 0 1 = Some (White, King)"
    by (auto simp: pg_ply9 t)
  with wf pg_ply9 pg9_kings e1 show ?thesis by (simp add: pg9Record_def)
qed

theorem enPassant_removes_landed_pawn_witness:
  "fst (makeMove pg4 3 1 2 0 None noDraws) =
     Inr \<lparr> resGame = pg5, valid = True, resMove = Some pg5Record \<rparr> \<and>
   wf_board (board pg4) \<and>
   cellAt (board pg4) 3 1 = Some (White, Pawn) \<and>
   enPassantTarget pg4 = Some (2, 0) \<and>
   cellAt (board pg4) 2 0 = None \<and>
   cellAt (board pg4) 3 0 = Some (Black, Pawn) \<and>
   mrEnPassant pg5Record \<and> mrCaptured pg5Record = Some (Black, Pawn) \<and>
   cellAt (board pg5) 3 0 = None \<and>
   cellAt (board pg5) 2 0 = Some (White, Pawn)"
proof -
  let ?res = "\<lparr> resGame = pg5, valid = True, resMove = Some pg5Record \<rparr>"
  have wf: "wf_board (board pg4)"
    by (simp add: pg4_def pg3_def pg2_def pg1_def movePiece_def wf_board_setCell wf_INITIAL_BOARD)
  have v: "valid ?res" by simp
  have c: "cellAt (board pg4) 3 1 = Some (White, Pawn)" "cellAt (board pg4) 2 0 = None"
    "cellAt (board pg4) 3 0 = Some (Black, Pawn)"
    by code_simp+
  have e: "enPassantTarget pg4 = Some (2, 0)" by (simp add: pg4_def)
  from enPassant_removes_landed_pawn [OF pg_ply5 v wf c(1) e c(2)]
  have "mrEnPassant pg5Record \<and> mrCaptured pg5Record = Some (Black, Pawn) \<and>
        cellAt (board pg5) 3 0 = None \<and> cellAt (board pg5) 2 0 = Some (White, Pawn)"
    by (simp add: enemyOf_def pg5Record_def quietRecord_def)
  with pg_ply5 wf c e show ?thesis by simp
qed

section \<open>The search strategy (chess/ai.js)\<close>

text \<open>The numbers of the search: the evaluations and the two infinities.\<close>

datatype score = NegInf | Fin int | PosInf

fun scoreLess :: "score \<Rightarrow> score \<Rightarrow> bool" where
  "scoreLess NegInf NegInf = False"
| "scoreLess NegInf (Fin b) = True"
| "scoreLess NegInf PosInf = True"
| "scoreLess (Fin a) NegInf = False"
| "scoreLess (Fin a) (Fin b) = (a < b)"
| "scoreLess (Fin a) PosInf = True"
| "scoreLess PosInf b = False"

definition scoreMax :: "score \<Rightarrow> score \<Rightarrow> score" where
  "scoreMax a b = (if scoreLess a b then b else a)"

definition scoreMin :: "score \<Rightarrow> score \<Rightarrow> score" where
  "scoreMin a b = (if scoreLess b a then b else a)"

text \<open>
  \<open>moves.sort\<close> with the comparator of \<open>minimax\<close>: a capture before a non-capture, and the
  sort is stable.
\<close>

definition capturesFirst :: "fullMove list \<Rightarrow> fullMove list" where
  "capturesFirst moves = filter capture moves @ filter (\<lambda>m. \<not> capture m) moves"

text \<open>
  The two loops of \<open>minimax\<close> over the ordered moves; \<open>deeper\<close> is the recursive call at
  \<open>depth - 1\<close>. An exception of \<open>makeMove\<close> ends the search.
\<close>

fun maxLoop ::
  "(game \<Rightarrow> score \<Rightarrow> score \<Rightarrow> rng \<Rightarrow> (error + score) \<times> rng) \<Rightarrow> game \<Rightarrow> fullMove list \<Rightarrow>
     score \<Rightarrow> score \<Rightarrow> score \<Rightarrow> rng \<Rightarrow> (error + score) \<times> rng" where
  "maxLoop deeper g [] alpha beta maxEval rnd = (Inr maxEval, rnd)"
| "maxLoop deeper g (m # ms) alpha beta maxEval rnd =
    (case makeMove g (fromRow m) (fromCol m) (toRow m) (toCol m) None rnd of
       (Inl e, rnd1) \<Rightarrow> (Inl e, rnd1)
     | (Inr result, rnd1) \<Rightarrow>
        (if \<not> valid result then maxLoop deeper g ms alpha beta maxEval rnd1
         else
          (case deeper (resGame result) alpha beta rnd1 of
             (Inl e, rnd2) \<Rightarrow> (Inl e, rnd2)
           | (Inr evalScore, rnd2) \<Rightarrow>
              (if \<not> scoreLess (scoreMax alpha evalScore) beta
               then (Inr (scoreMax maxEval evalScore), rnd2)
               else maxLoop deeper g ms (scoreMax alpha evalScore) beta
                      (scoreMax maxEval evalScore) rnd2))))"

fun minLoop ::
  "(game \<Rightarrow> score \<Rightarrow> score \<Rightarrow> rng \<Rightarrow> (error + score) \<times> rng) \<Rightarrow> game \<Rightarrow> fullMove list \<Rightarrow>
     score \<Rightarrow> score \<Rightarrow> score \<Rightarrow> rng \<Rightarrow> (error + score) \<times> rng" where
  "minLoop deeper g [] alpha beta minEval rnd = (Inr minEval, rnd)"
| "minLoop deeper g (m # ms) alpha beta minEval rnd =
    (case makeMove g (fromRow m) (fromCol m) (toRow m) (toCol m) None rnd of
       (Inl e, rnd1) \<Rightarrow> (Inl e, rnd1)
     | (Inr result, rnd1) \<Rightarrow>
        (if \<not> valid result then minLoop deeper g ms alpha beta minEval rnd1
         else
          (case deeper (resGame result) alpha beta rnd1 of
             (Inl e, rnd2) \<Rightarrow> (Inl e, rnd2)
           | (Inr evalScore, rnd2) \<Rightarrow>
              (if \<not> scoreLess alpha (scoreMin beta evalScore)
               then (Inr (scoreMin minEval evalScore), rnd2)
               else minLoop deeper g ms alpha (scoreMin beta evalScore)
                      (scoreMin minEval evalScore) rnd2))))"

text \<open>\<open>minimax(game, depth, alpha, beta, maximizing)\<close>, the depth a natural number.\<close>

fun minimax ::
  "nat \<Rightarrow> game \<Rightarrow> score \<Rightarrow> score \<Rightarrow> bool \<Rightarrow> rng \<Rightarrow> (error + score) \<times> rng" where
  "minimax 0 g alpha beta maximizing rnd = (Inr (Fin (evaluate g)), rnd)"
| "minimax (Suc d) g alpha beta maximizing rnd =
    (if gameOver g then (Inr (Fin (evaluate g)), rnd)
     else if getAllLegalMoves g = [] then
       (if isInCheck g (turn g) then
          (Inr (Fin (if maximizing then - 100000 + (5 - int (Suc d))
                     else 100000 - (5 - int (Suc d)))), rnd)
        else (Inr (Fin 0), rnd))
     else if maximizing then
       maxLoop (\<lambda>g' a b r. minimax d g' a b False r) g (capturesFirst (getAllLegalMoves g))
         alpha beta NegInf rnd
     else
       minLoop (\<lambda>g' a b r. minimax d g' a b True r) g (capturesFirst (getAllLegalMoves g))
         alpha beta PosInf rnd)"

text \<open>The loop of \<open>getHardMove\<close> over the moves, with \<open>bestMove\<close> and \<open>bestScore\<close>.\<close>

fun rootLoop ::
  "game \<Rightarrow> bool \<Rightarrow> fullMove list \<Rightarrow> fullMove option \<Rightarrow> score \<Rightarrow> rng \<Rightarrow>
     (error + fullMove option) \<times> rng" where
  "rootLoop g maximizing [] bestMove bestScore rnd = (Inr bestMove, rnd)"
| "rootLoop g maximizing (m # ms) bestMove bestScore rnd =
    (case makeMove g (fromRow m) (fromCol m) (toRow m) (toCol m) None rnd of
       (Inl e, rnd1) \<Rightarrow> (Inl e, rnd1)
     | (Inr result, rnd1) \<Rightarrow>
        (if \<not> valid result then rootLoop g maximizing ms bestMove bestScore rnd1
         else
          (case minimax 3 (resGame result) NegInf PosInf (\<not> maximizing) rnd1 of
             (Inl e, rnd2) \<Rightarrow> (Inl e, rnd2)
           | (Inr s, rnd2) \<Rightarrow>
              (if (if maximizing then scoreLess bestScore s else scoreLess s bestScore)
               then rootLoop g maximizing ms (Some m) s rnd2
               else rootLoop g maximizing ms bestMove bestScore rnd2))))"

definition getHardMove :: "game \<Rightarrow> rng \<Rightarrow> (error + fullMove option) \<times> rng" where
  "getHardMove g rnd =
    (if getAllLegalMoves g = [] then (Inr None, rnd)
     else rootLoop g (turn g = White) (getAllLegalMoves g) None
            (if turn g = White then NegInf else PosInf) rnd)"

text \<open>
  A position for the search. White: king a8, pawns a7, c7, f6, g6, h7. Black: rook b8,
  king h8. White is to move and in check; its legal moves are the captures of the rook
  by the king, by the pawn a7 and by the pawn c7, and after each of them Black has no
  legal move.
\<close>

definition searchPosition :: game where
  "searchPosition = createGame\<lparr>
     board := [[Some (White, King), Some (Black, Rook), None, None, None, None, None,
                Some (Black, King)],
               [Some (White, Pawn), None, Some (White, Pawn), None, None, None, None,
                Some (White, Pawn)],
               [None, None, None, None, None, Some (White, Pawn), Some (White, Pawn), None],
               emptyRow, emptyRow, emptyRow, emptyRow, emptyRow],
     castling := \<lparr> whiteRights = noRights, blackRights = noRights \<rparr>,
     fullMoveNumber := 40 \<rparr>"

text \<open>Draws that make every random promotion a queen; and four knights, then queens.\<close>

definition queenDraws :: rng where
  "queenDraws = (\<lambda>n. 0)"

definition knightsThenQueenDraws :: rng where
  "knightsThenQueenDraws = (\<lambda>n. if n < 4 then 3 / 4 else 0)"


section \<open>The search on a position with promotions\<close>

lemma makeMove_eq:
  assumes "0 \<le> fRow" "fRow \<le> 7"
    and "cellAt (board g) fRow fCol = Some p"
    and "List.find (\<lambda>m. toRow m = tRow \<and> toCol m = tCol) (getLegalMoves g fRow fCol) = Some mv"
  shows "makeMove g fRow fCol tRow tCol po rnd =
           (Inr (executeMove g fRow fCol tRow tCol p mv (chosenPromotion mv po rnd)),
            if promotion mv \<noteq> None \<and> po = None then nextDraws rnd else rnd)"
  using assms by (auto simp: makeMove_def chosenPromotion_def split: option.splits)

lemma minimax_gameOver:
  "gameOver g \<Longrightarrow> minimax 3 g alpha beta maximizing rnd = (Inr (Fin (evaluate g)), rnd)"
  by (simp add: numeral_3_eq_3)

definition captureB8 :: "pieceType option \<Rightarrow> move" where
  "captureB8 promo = \<lparr> toRow = 0, toCol = 1, capture = True, promotion = promo, castle = None,
                       doublePawn = False, enPassant = False \<rparr>"

lemma searchPosition_moves:
  "getAllLegalMoves searchPosition =
     withOrigin 0 0 (captureB8 None) #
     map (\<lambda>k. withOrigin 1 0 (captureB8 (Some k))) promotionOptions @
     map (\<lambda>k. withOrigin 1 2 (captureB8 (Some k))) promotionOptions"
  by code_simp

lemma searchPosition_find:
  "List.find (\<lambda>m. toRow m = 0 \<and> toCol m = 1) (getLegalMoves searchPosition 0 0) =
     Some (captureB8 None)"
  "List.find (\<lambda>m. toRow m = 0 \<and> toCol m = 1) (getLegalMoves searchPosition 1 0) =
     Some (captureB8 (Some Queen))"
  "List.find (\<lambda>m. toRow m = 0 \<and> toCol m = 1) (getLegalMoves searchPosition 1 2) =
     Some (captureB8 (Some Queen))"
  by code_simp+

lemma searchPosition_cells:
  "cellAt (board searchPosition) 0 0 = Some (White, King)"
  "cellAt (board searchPosition) 1 0 = Some (White, Pawn)"
  "cellAt (board searchPosition) 1 2 = Some (White, Pawn)"
  by code_simp+

text \<open>Whether the game is over, and the evaluation, after a move.\<close>

definition outcome :: "moveResult \<Rightarrow> bool \<times> int" where
  "outcome res = (gameOver (resGame res), evaluate (resGame res))"

lemma searchPosition_outcomes:
  "outcome (executeMove searchPosition 0 0 0 1 (White, King) (captureB8 None) None) = (True, 620)"
  "outcome (executeMove searchPosition 1 0 0 1 (White, Pawn) (captureB8 (Some Queen)) (Some Queen)) =
     (True, 1420)"
  "outcome (executeMove searchPosition 1 0 0 1 (White, Pawn) (captureB8 (Some Queen)) (Some Knight)) =
     (True, 760)"
  "outcome (executeMove searchPosition 1 2 0 1 (White, Pawn) (captureB8 (Some Queen)) (Some Queen)) =
     (True, 1420)"
  "outcome (executeMove searchPosition 1 2 0 1 (White, Pawn) (captureB8 (Some Queen)) (Some Knight)) =
     (True, 760)"
  by code_simp+


lemma searchPosition_makeMove:
  "makeMove searchPosition 0 0 0 1 None rnd =
     (Inr (executeMove searchPosition 0 0 0 1 (White, King) (captureB8 None) None), rnd)"
  "makeMove searchPosition 1 0 0 1 None rnd =
     (Inr (executeMove searchPosition 1 0 0 1 (White, Pawn) (captureB8 (Some Queen))
            (Some (randomPromotion (rnd 0)))), nextDraws rnd)"
  "makeMove searchPosition 1 2 0 1 None rnd =
     (Inr (executeMove searchPosition 1 2 0 1 (White, Pawn) (captureB8 (Some Queen))
            (Some (randomPromotion (rnd 0)))), nextDraws rnd)"
  by (simp_all add: makeMove_eq [OF _ _ searchPosition_cells(1) searchPosition_find(1)]
      makeMove_eq [OF _ _ searchPosition_cells(2) searchPosition_find(2)]
      makeMove_eq [OF _ _ searchPosition_cells(3) searchPosition_find(3)]
      chosenPromotion_def captureB8_def)

lemma searchPosition_results:
  "gameOver (resGame (executeMove searchPosition 0 0 0 1 (White, King) (captureB8 None) None))"
  "evaluate (resGame (executeMove searchPosition 0 0 0 1 (White, King) (captureB8 None) None)) = 620"
  "gameOver (resGame (executeMove searchPosition 1 0 0 1 (White, Pawn) (captureB8 (Some Queen)) (Some Queen)))"
  "evaluate (resGame (executeMove searchPosition 1 0 0 1 (White, Pawn) (captureB8 (Some Queen)) (Some Queen))) = 1420"
  "gameOver (resGame (executeMove searchPosition 1 0 0 1 (White, Pawn) (captureB8 (Some Queen)) (Some Knight)))"
  "evaluate (resGame (executeMove searchPosition 1 0 0 1 (White, Pawn) (captureB8 (Some Queen)) (Some Knight))) = 760"
  "gameOver (resGame (executeMove searchPosition 1 2 0 1 (White, Pawn) (captureB8 (Some Queen)) (Some Queen)))"
  "evaluate (resGame (executeMove searchPosition 1 2 0 1 (White, Pawn) (captureB8 (Some Queen)) (Some Queen))) = 1420"
  "gameOver (resGame (executeMove searchPosition 1 2 0 1 (White, Pawn) (captureB8 (Some Queen)) (Some Knight)))"
  "evaluate (resGame (executeMove searchPosition 1 2 0 1 (White, Pawn) (captureB8 (Some Queen)) (Some Knight))) = 760"
  using searchPosition_outcomes by (simp_all add: outcome_def)

lemma draws_simps:
  "randomPromotion 0 = Queen" "randomPromotion (3 / 4) = Knight"
  by (simp_all add: randomPromotion_def promotionOptions_def)

lemma searchPosition_turn: "turn searchPosition = White"
  by (simp add: searchPosition_def createGame_def)

lemma origin_simps:
  "fromRow (withOrigin r c m) = r" "fromCol (withOrigin r c m) = c"
  "toRow (withOrigin r c (captureB8 k)) = 0" "toCol (withOrigin r c (captureB8 k)) = 1"
  by (simp_all add: withOrigin_def captureB8_def)

lemma getHardMove_queenDraws:
  "fst (getHardMove searchPosition queenDraws) =
     Inr (Some (withOrigin 1 0 (captureB8 (Some Queen))))"
  by (simp add: getHardMove_def searchPosition_moves promotionOptions_def searchPosition_turn
      origin_simps searchPosition_makeMove executeMove_valid minimax_gameOver
      searchPosition_results draws_simps nextDraws_def queenDraws_def)

lemma getHardMove_knightsThenQueenDraws:
  "fst (getHardMove searchPosition knightsThenQueenDraws) =
     Inr (Some (withOrigin 1 2 (captureB8 (Some Queen))))"
  by (simp add: getHardMove_def searchPosition_moves promotionOptions_def searchPosition_turn
      origin_simps searchPosition_makeMove executeMove_valid minimax_gameOver
      searchPosition_results draws_simps nextDraws_def knightsThenQueenDraws_def)

section \<open>The root of the search picks the first best move\<close>

text \<open>
  The choice in the words of the specification. The root moves are scored in iteration
  order, each by \<open>minimax\<close> at depth 3 on the position \<open>makeMove\<close> yields, the random draws
  carried from one move to the next ...
\<close>

fun rootScores :: "game \<Rightarrow> bool \<Rightarrow> fullMove list \<Rightarrow> rng \<Rightarrow> (fullMove \<times> int) list" where
  "rootScores g maximizing [] rnd = []"
| "rootScores g maximizing (m # ms) rnd =
    (case makeMove g (fromRow m) (fromCol m) (toRow m) (toCol m) None rnd of
       (Inl e, rnd1) \<Rightarrow> []
     | (Inr result, rnd1) \<Rightarrow>
        (case minimax 3 (resGame result) NegInf PosInf (\<not> maximizing) rnd1 of
           (Inr (Fin s), rnd2) \<Rightarrow> (m, s) # rootScores g maximizing ms rnd2
         | (other, rnd2) \<Rightarrow> []))"

text \<open>
  ... and the move chosen is the first, in that order, whose score is the greatest (White to
  move) or the least (Black to move); none when there is no move.
\<close>

definition firstBest :: "bool \<Rightarrow> (fullMove \<times> int) list \<Rightarrow> fullMove option" where
  "firstBest maximizing scored =
    (if scored = [] then None
     else map_option fst
            (List.find (\<lambda>ms. snd ms = (if maximizing then Max (set (map snd scored))
                                        else Min (set (map snd scored)))) scored))"

text \<open>The loop of the root on scored moves.\<close>

fun pickLoop :: "bool \<Rightarrow> (fullMove \<times> int) list \<Rightarrow> fullMove option \<Rightarrow> score \<Rightarrow> fullMove option" where
  "pickLoop mx [] bm bs = bm"
| "pickLoop mx ((m, s) # rest) bm bs =
    (if (if mx then scoreLess bs (Fin s) else scoreLess (Fin s) bs)
     then pickLoop mx rest (Some m) (Fin s) else pickLoop mx rest bm bs)"

lemma Max_insert_first:
  assumes "finite R"
  shows "Max (insert (s0::int) (insert s R)) = max s0 (Max (insert s R))"
    and "Max (insert s0 (insert s R)) = max s (Max (insert s0 R))"
    and "s \<le> Max (insert s R)"
proof -
  show "Max (insert s0 (insert s R)) = max s0 (Max (insert s R))"
    using assms by (simp add: Max_insert)
  have "Max (insert s (insert s0 R)) = max s (Max (insert s0 R))"
    using assms by (simp add: Max_insert)
  then show "Max (insert s0 (insert s R)) = max s (Max (insert s0 R))"
    by (simp add: insert_commute)
  show "s \<le> Max (insert s R)" using assms by simp
qed

lemma Min_insert_first:
  assumes "finite R"
  shows "Min (insert (s0::int) (insert s R)) = min s0 (Min (insert s R))"
    and "Min (insert s0 (insert s R)) = min s (Min (insert s0 R))"
    and "Min (insert s R) \<le> s"
proof -
  show "Min (insert s0 (insert s R)) = min s0 (Min (insert s R))"
    using assms by (simp add: Min_insert)
  have "Min (insert s (insert s0 R)) = min s (Min (insert s0 R))"
    using assms by (simp add: Min_insert)
  then show "Min (insert s0 (insert s R)) = min s (Min (insert s0 R))"
    by (simp add: insert_commute)
  show "Min (insert s R) \<le> s" using assms by simp
qed

lemma firstBest_Cons2_max:
  "firstBest True ((m0, s0) # (m, s) # rest) =
     (if s0 < s then firstBest True ((m, s) # rest) else firstBest True ((m0, s0) # rest))"
proof -
  let ?R = "snd ` set rest"
  have fin: "finite ?R" by simp
  note mi = Max_insert_first [OF fin]
  show ?thesis
  proof (cases "s0 < s")
    case True
    have lt: "s0 < Max (insert s ?R)" by (rule less_le_trans [OF True mi(3)])
    have M: "Max (insert s0 (insert s ?R)) = Max (insert s ?R)"
      unfolding mi(1) by (rule max_absorb2) (rule less_imp_le [OF lt])
    from lt have "s0 \<noteq> Max (insert s ?R)" by simp
    with True M show ?thesis by (simp add: firstBest_def)
  next
    case False
    then have "s \<le> s0" by simp
    then have le: "s \<le> Max (insert s0 ?R)" by (rule order_trans [OF _ mi(3)])
    note le = this
    have M: "Max (insert s0 (insert s ?R)) = Max (insert s0 ?R)"
      unfolding mi(2) by (rule max_absorb2 [OF le])
    have "s \<noteq> Max (insert s0 ?R)" if "s0 \<noteq> Max (insert s0 ?R)"
    proof
      assume e: "s = Max (insert s0 ?R)"
      have "s0 \<le> Max (insert s0 ?R)" by (rule mi(3))
      with e \<open>s \<le> s0\<close> that show False by simp
    qed
    with False M show ?thesis by (auto simp: firstBest_def)
  qed
qed

lemma firstBest_Cons2_min:
  "firstBest False ((m0, s0) # (m, s) # rest) =
     (if s < s0 then firstBest False ((m, s) # rest) else firstBest False ((m0, s0) # rest))"
proof -
  let ?R = "snd ` set rest"
  have fin: "finite ?R" by simp
  note mi = Min_insert_first [OF fin]
  show ?thesis
  proof (cases "s < s0")
    case True
    have lt: "Min (insert s ?R) < s0" by (rule le_less_trans [OF mi(3) True])
    have M: "Min (insert s0 (insert s ?R)) = Min (insert s ?R)"
      unfolding mi(1) by (rule min_absorb2) (rule less_imp_le [OF lt])
    from lt have "s0 \<noteq> Min (insert s ?R)" by simp
    with True M show ?thesis by (simp add: firstBest_def)
  next
    case False
    then have "s0 \<le> s" by simp
    then have le: "Min (insert s0 ?R) \<le> s" by (rule order_trans [OF mi(3)])
    note le = this
    have M: "Min (insert s0 (insert s ?R)) = Min (insert s0 ?R)"
      unfolding mi(2) by (rule min_absorb2 [OF le])
    have "s \<noteq> Min (insert s0 ?R)" if "s0 \<noteq> Min (insert s0 ?R)"
    proof
      assume e: "s = Min (insert s0 ?R)"
      have "Min (insert s0 ?R) \<le> s0" by (rule mi(3))
      with e \<open>s0 \<le> s\<close> that show False by simp
    qed
    with False M show ?thesis by (auto simp: firstBest_def)
  qed
qed

lemma pickLoop_from_best:
  "pickLoop mx scored (Some m0) (Fin s0) = firstBest mx ((m0, s0) # scored)"
proof (induction scored arbitrary: m0 s0)
  case Nil
  show ?case by (simp add: firstBest_def)
next
  case (Cons x rest)
  obtain m s where x: "x = (m, s)" by (cases x)
  show ?case
  proof (cases mx)
    case True
    with Cons.IH [of m s] Cons.IH [of m0 s0] show ?thesis
      by (simp add: x firstBest_Cons2_max)
  next
    case False
    with Cons.IH [of m s] Cons.IH [of m0 s0] show ?thesis
      by (simp add: x firstBest_Cons2_min)
  qed
qed

lemma pickLoop_firstBest:
  "pickLoop mx scored None (if mx then NegInf else PosInf) = firstBest mx scored"
proof (cases scored)
  case Nil
  then show ?thesis by (simp add: firstBest_def)
next
  case (Cons x rest)
  obtain m s where x: "x = (m, s)" by (cases x)
  show ?thesis unfolding Cons x by (simp add: pickLoop_from_best)
qed

lemma index_range: "(r::int) \<in> set [0, 1, 2, 3, 4, 5, 6, 7] \<longleftrightarrow> 0 \<le> r \<and> r \<le> 7"
  by (simp only: set_simps insert_iff empty_iff) arith

lemma set_grid: "set (concat (map (\<lambda>r. map (\<lambda>c. (r, c)) ys) xs)) = set xs \<times> set ys"
  by auto

lemma allSquares_onBoard: "(r, c) \<in> set allSquares \<longleftrightarrow> onBoard r c"
proof -
  have "(r, c) \<in> set allSquares \<longleftrightarrow>
      r \<in> set [0, 1, 2, 3, 4, 5, 6, 7] \<and> c \<in> set [0, 1, 2, 3, 4, 5, 6, 7]"
    unfolding allSquares_def set_grid by (rule mem_Sigma_iff)
  then show ?thesis unfolding index_range onBoard_def by simp
qed

lemma getAllLegalMoves_member:
  assumes "m \<in> set (getAllLegalMoves g)"
  shows "onBoard (fromRow m) (fromCol m) \<and>
         (\<exists>m0 \<in> set (getLegalMoves g (fromRow m) (fromCol m)).
            toRow m0 = toRow m \<and> toCol m0 = toCol m \<and> m = withOrigin (fromRow m) (fromCol m) m0)"
proof -
  from assms obtain r c m0 where sq: "(r, c) \<in> set allSquares"
    and m0: "m0 \<in> set (getLegalMoves g r c)"
    and m: "m = withOrigin r c m0"
    by (auto simp: getAllLegalMoves_def split: option.splits if_splits)
  from m have "fromRow m = r" "fromCol m = c" "toRow m = toRow m0" "toCol m = toCol m0"
    by (simp_all add: withOrigin_def)
  with sq m0 m show ?thesis by (auto simp: allSquares_onBoard)
qed

lemma legal_move_applies:
  assumes "m \<in> set (getAllLegalMoves g)"
  shows "\<exists>res rnd'. makeMove g (fromRow m) (fromCol m) (toRow m) (toCol m) po rnd = (Inr res, rnd') \<and>
           valid res"
proof -
  from getAllLegalMoves_member [OF assms] obtain m0 where
    r: "0 \<le> fromRow m" "fromRow m \<le> 7"
    and m0: "m0 \<in> set (getLegalMoves g (fromRow m) (fromCol m))"
      "toRow m0 = toRow m" "toCol m0 = toCol m"
    by (auto simp: onBoard_def)
  from m0(1) obtain p where p: "cellAt (board g) (fromRow m) (fromCol m) = Some p"
    by (cases "cellAt (board g) (fromRow m) (fromCol m)") (auto simp: getLegalMoves_empty_square)
  from m0 obtain mv where
    mv: "List.find (\<lambda>x. toRow x = toRow m \<and> toCol x = toCol m)
           (getLegalMoves g (fromRow m) (fromCol m)) = Some mv"
    by (cases "List.find (\<lambda>x. toRow x = toRow m \<and> toCol x = toCol m)
           (getLegalMoves g (fromRow m) (fromCol m))") (auto simp: find_None_iff)
  show ?thesis
    unfolding makeMove_eq [OF r p mv] by (simp add: executeMove_valid)
qed

lemma scoreMax_Fin: "a \<noteq> PosInf \<Longrightarrow> \<exists>y. scoreMax a (Fin e) = Fin y"
  by (cases a) (simp_all add: scoreMax_def)

lemma scoreMin_Fin: "a \<noteq> NegInf \<Longrightarrow> \<exists>y. scoreMin a (Fin e) = Fin y"
  by (cases a) (simp_all add: scoreMin_def)

lemma maxLoop_finite:
  assumes deeper: "\<And>g' a b r. \<exists>s r'. deeper g' a b r = (Inr (Fin s), r')"
    and "set ms \<subseteq> set (getAllLegalMoves g)"
    and "maxEval \<noteq> PosInf" and "ms \<noteq> [] \<or> maxEval \<noteq> NegInf"
  shows "\<exists>s r'. maxLoop deeper g ms alpha beta maxEval rnd = (Inr (Fin s), r')"
  using assms(2-)
proof (induction ms arbitrary: alpha maxEval rnd)
  case Nil
  then show ?case by (cases maxEval) simp_all
next
  case (Cons m ms)
  from Cons.prems(1) have "m \<in> set (getAllLegalMoves g)" by simp
  from legal_move_applies [OF this, of None rnd] obtain res rnd1 where
    mk: "makeMove g (fromRow m) (fromCol m) (toRow m) (toCol m) None rnd = (Inr res, rnd1)"
    and v: "valid res" by blast
  from deeper [of "resGame res" alpha beta rnd1] obtain e rnd2 where
    d: "deeper (resGame res) alpha beta rnd1 = (Inr (Fin e), rnd2)" by blast
  from scoreMax_Fin [OF Cons.prems(2), of e] obtain y where y: "scoreMax maxEval (Fin e) = Fin y"
    by blast
  have "\<exists>s r'. maxLoop deeper g ms (scoreMax alpha (Fin e)) beta (Fin y) rnd2 = (Inr (Fin s), r')"
    using Cons.prems(1) by (intro Cons.IH) simp_all
  then show ?case by (simp add: mk v d y)
qed

lemma minLoop_finite:
  assumes deeper: "\<And>g' a b r. \<exists>s r'. deeper g' a b r = (Inr (Fin s), r')"
    and "set ms \<subseteq> set (getAllLegalMoves g)"
    and "minEval \<noteq> NegInf" and "ms \<noteq> [] \<or> minEval \<noteq> PosInf"
  shows "\<exists>s r'. minLoop deeper g ms alpha beta minEval rnd = (Inr (Fin s), r')"
  using assms(2-)
proof (induction ms arbitrary: beta minEval rnd)
  case Nil
  then show ?case by (cases minEval) simp_all
next
  case (Cons m ms)
  from Cons.prems(1) have "m \<in> set (getAllLegalMoves g)" by simp
  from legal_move_applies [OF this, of None rnd] obtain res rnd1 where
    mk: "makeMove g (fromRow m) (fromCol m) (toRow m) (toCol m) None rnd = (Inr res, rnd1)"
    and v: "valid res" by blast
  from deeper [of "resGame res" alpha beta rnd1] obtain e rnd2 where
    d: "deeper (resGame res) alpha beta rnd1 = (Inr (Fin e), rnd2)" by blast
  from scoreMin_Fin [OF Cons.prems(2), of e] obtain y where y: "scoreMin minEval (Fin e) = Fin y"
    by blast
  have "\<exists>s r'. minLoop deeper g ms alpha (scoreMin beta (Fin e)) (Fin y) rnd2 = (Inr (Fin s), r')"
    using Cons.prems(1) by (intro Cons.IH) simp_all
  then show ?case by (simp add: mk v d y)
qed

lemma capturesFirst_set: "set (capturesFirst ms) = set ms"
  by (auto simp: capturesFirst_def)

lemma capturesFirst_Nil: "capturesFirst ms = [] \<longleftrightarrow> ms = []"
  using capturesFirst_set [of ms] by (metis set_empty)

text \<open>The search returns: a finite score, and no exception.\<close>

lemma minimax_finite: "\<exists>s rnd'. minimax d g alpha beta maximizing rnd = (Inr (Fin s), rnd')"
proof (induction d arbitrary: g alpha beta maximizing rnd)
  case 0
  show ?case by simp
next
  case (Suc d)
  show ?case
  proof (cases "gameOver g \<or> getAllLegalMoves g = []")
    case True
    then show ?thesis by auto
  next
    case False
    then have ne: "capturesFirst (getAllLegalMoves g) \<noteq> []" by (simp add: capturesFirst_Nil)
    have sub: "set (capturesFirst (getAllLegalMoves g)) \<subseteq> set (getAllLegalMoves g)"
      by (simp add: capturesFirst_set)
    show ?thesis
    proof (cases maximizing)
      case True
      from maxLoop_finite [of "\<lambda>g' a b r. minimax d g' a b False r", OF Suc.IH sub _ disjI1 [OF ne]]
      show ?thesis using False True by simp
    next
      case mn: False
      from minLoop_finite [of "\<lambda>g' a b r. minimax d g' a b True r", OF Suc.IH sub _ disjI1 [OF ne]]
      show ?thesis using False mn by simp
    qed
  qed
qed

lemma rootLoop_pickLoop:
  assumes "set ms \<subseteq> set (getAllLegalMoves g)"
  shows "fst (rootLoop g mx ms bm bs rnd) = Inr (pickLoop mx (rootScores g mx ms rnd) bm bs)"
  using assms
proof (induction ms arbitrary: bm bs rnd)
  case Nil
  show ?case by simp
next
  case (Cons m ms)
  from Cons.prems have "m \<in> set (getAllLegalMoves g)" by simp
  from legal_move_applies [OF this, of None rnd] obtain res rnd1 where
    mk: "makeMove g (fromRow m) (fromCol m) (toRow m) (toCol m) None rnd = (Inr res, rnd1)"
    and v: "valid res" by blast
  from minimax_finite [of 3 "resGame res" NegInf PosInf "\<not> mx" rnd1] obtain s rnd2 where
    d: "minimax 3 (resGame res) NegInf PosInf (\<not> mx) rnd1 = (Inr (Fin s), rnd2)" by blast
  from Cons.prems have sub: "set ms \<subseteq> set (getAllLegalMoves g)" by simp
  show ?case
  proof (cases mx)
    case True
    with d Cons.IH [OF sub, of "Some m" "Fin s" rnd2] Cons.IH [OF sub, of bm bs rnd2]
    show ?thesis by (simp add: mk v)
  next
    case False
    with d Cons.IH [OF sub, of "Some m" "Fin s" rnd2] Cons.IH [OF sub, of bm bs rnd2]
    show ?thesis by (simp add: mk v)
  qed
qed

text \<open>
  C8, as the code has it. For a state and a source of random draws, \<open>getHardMove\<close> throws
  nothing and returns the first move, in the iteration order of \<open>getAllLegalMoves\<close>, whose
  score is the greatest (White to move) or the least (Black to move) of the scores of the
  root moves - each the value of \<open>minimax\<close> at depth 3 on the position \<open>makeMove\<close> yields,
  with the draws it takes for a promotion - and no move when there is none.
\<close>

theorem getHardMove_first_best:
  "fst (getHardMove g rnd) =
     Inr (firstBest (turn g = White) (rootScores g (turn g = White) (getAllLegalMoves g) rnd))"
proof (cases "getAllLegalMoves g = []")
  case True
  then show ?thesis by (simp add: getHardMove_def firstBest_def)
next
  case False
  have "fst (rootLoop g (turn g = White) (getAllLegalMoves g) None
               (if turn g = White then NegInf else PosInf) rnd) =
        Inr (pickLoop (turn g = White) (rootScores g (turn g = White) (getAllLegalMoves g) rnd)
               None (if turn g = White then NegInf else PosInf))"
    by (rule rootLoop_pickLoop) simp
  with False show ?thesis by (simp add: getHardMove_def pickLoop_firstBest)
qed

text \<open>
  C8 as claimed fails: on the same position the search chooses the capture by the pawn a7
  when every random promotion of the search is a queen, and the capture by the pawn c7
  when the first four are knights.
\<close>

theorem getHardMove_depends_on_draws:
  "fst (getHardMove searchPosition queenDraws) =
     Inr (Some (withOrigin 1 0 (captureB8 (Some Queen)))) \<and>
   fst (getHardMove searchPosition knightsThenQueenDraws) =
     Inr (Some (withOrigin 1 2 (captureB8 (Some Queen)))) \<and>
   fst (getHardMove searchPosition queenDraws) \<noteq>
     fst (getHardMove searchPosition knightsThenQueenDraws)"
  by (simp add: getHardMove_queenDraws getHardMove_knightsThenQueenDraws withOrigin_def)

end
